theory Spec2Isabelle
  imports Complex_Main "HOL-Library.Multiset"
begin

section \<open>Data model\<close>

text \<open>
  The script works on pandas data frames of floating-point columns. A cell is a
  float64: it is modelled as an exact real, and NaN (pandas' missing value) as
  \<open>None\<close>. A Series is the list of its cells in row order. A data frame is
  the number of its rows together with its columns by name; a name that is not a
  column of the frame maps to \<open>None\<close>, which is what \<^verbatim>\<open>col in df\<close> tests.
\<close>

type_synonym cell = "real option"

type_synonym series = "cell list"

record dataframe =
  nrows :: nat
  cols :: "string \<rightharpoonup> series"

text \<open>The ways the script can stop: \<^verbatim>\<open>exit()\<close>, and the exceptions of Python.\<close>

datatype error = Exit | IndexError | KeyError

definition has_col :: "dataframe \<Rightarrow> string \<Rightarrow> bool" where
  "has_col df c = (cols df c \<noteq> None)"

definition get_col :: "dataframe \<Rightarrow> string \<Rightarrow> series" where
  "get_col df c = (case cols df c of Some s \<Rightarrow> s | None \<Rightarrow> [])"

definition set_col :: "string \<Rightarrow> series \<Rightarrow> dataframe \<Rightarrow> dataframe" where
  "set_col c s df = df\<lparr>cols := (cols df)(c \<mapsto> s)\<rparr>"

text \<open>\<^verbatim>\<open>df[c] = v\<close> with a scalar \<open>v\<close>: the value in every row.\<close>

definition set_const :: "string \<Rightarrow> cell \<Rightarrow> dataframe \<Rightarrow> dataframe" where
  "set_const c v df = set_col c (replicate (nrows df) v) df"

text \<open>Every column of a frame has one cell per row.\<close>

definition wf :: "dataframe \<Rightarrow> bool" where
  "wf df = (\<forall>c s. cols df c = Some s \<longrightarrow> length s = nrows df)"

section \<open>Series operations\<close>

text \<open>\<^verbatim>\<open>s.fillna(v)\<close>\<close>

definition fillna :: "real \<Rightarrow> series \<Rightarrow> series" where
  "fillna v s = map (\<lambda>x. case x of None \<Rightarrow> Some v | Some y \<Rightarrow> Some y) s"

text \<open>Arithmetic on cells: NaN in, NaN out.\<close>

fun add_cell :: "cell \<Rightarrow> cell \<Rightarrow> cell" where
  "add_cell (Some a) (Some b) = Some (a + b)"
| "add_cell _ _ = None"

fun sub_cell :: "cell \<Rightarrow> cell \<Rightarrow> cell" where
  "sub_cell (Some a) (Some b) = Some (a - b)"
| "sub_cell _ _ = None"

text \<open>
  Division of floats raises nothing in pandas. A zero divisor would give an
  infinity or NaN; the only division of the script has the divisor
  \<open>total_assets + epsilon\<close>, which is positive, and the model has no infinities:
  a zero divisor gives \<open>None\<close>.
\<close>

fun div_cell :: "cell \<Rightarrow> cell \<Rightarrow> cell" where
  "div_cell (Some a) (Some b) = (if b = 0 then None else Some (a / b))"
| "div_cell _ _ = None"

text \<open>Comparisons with a number: NaN compares false.\<close>

fun ge_cell :: "cell \<Rightarrow> real \<Rightarrow> bool" where
  "ge_cell (Some a) k = (k \<le> a)"
| "ge_cell None k = False"

fun le_cell :: "cell \<Rightarrow> real \<Rightarrow> bool" where
  "le_cell (Some a) k = (a \<le> k)"
| "le_cell None k = False"

fun gt_cell :: "cell \<Rightarrow> real \<Rightarrow> bool" where
  "gt_cell (Some a) k = (k < a)"
| "gt_cell None k = False"

fun eq_cell :: "cell \<Rightarrow> real \<Rightarrow> bool" where
  "eq_cell (Some a) k = (a = k)"
| "eq_cell None k = False"

text \<open>\<^verbatim>\<open>s.combine_first(t)\<close> on two Series of one frame: \<open>s\<close> where it is not NaN.\<close>

definition combine_first :: "series \<Rightarrow> series \<Rightarrow> series" where
  "combine_first s t = map2 (\<lambda>x y. case x of Some v \<Rightarrow> Some v | None \<Rightarrow> y) s t"

text \<open>\<^verbatim>\<open>s.apply(f)\<close>: \<open>f\<close> on every cell in order; the first exception ends it.\<close>

fun series_apply :: "(cell \<Rightarrow> error + cell) \<Rightarrow> series \<Rightarrow> error + series" where
  "series_apply f [] = Inr []"
| "series_apply f (x # xs) =
     (case f x of
        Inl e \<Rightarrow> Inl e
      | Inr y \<Rightarrow> (case series_apply f xs of Inl e \<Rightarrow> Inl e | Inr ys \<Rightarrow> Inr (y # ys)))"

text \<open>\<^verbatim>\<open>df.loc[mask, c] = v\<close> on the column \<open>c\<close>.\<close>

definition loc_assign :: "bool list \<Rightarrow> cell \<Rightarrow> series \<Rightarrow> series" where
  "loc_assign msk v s = map2 (\<lambda>m x. if m then v else x) msk s"

text \<open>\<^verbatim>\<open>np.where(mask, s, np.nan)\<close>\<close>

definition np_where_nan :: "bool list \<Rightarrow> series \<Rightarrow> series" where
  "np_where_nan msk s = map2 (\<lambda>m x. if m then x else None) msk s"

text \<open>\<^verbatim>\<open>df[mask]\<close>: the rows where the mask holds, in every column.\<close>

definition mask_select :: "bool list \<Rightarrow> 'a list \<Rightarrow> 'a list" where
  "mask_select msk s = map snd (filter fst (zip msk s))"

definition filter_rows :: "bool list \<Rightarrow> dataframe \<Rightarrow> dataframe" where
  "filter_rows msk df =
     \<lparr>nrows = length (filter id (take (nrows df) msk)),
      cols = (\<lambda>c. map_option (mask_select msk) (cols df c))\<rparr>"

section \<open>Midpoint resolver\<close>

text \<open>
  \<^verbatim>\<open>base_var_name = var_name.split('_')[0] if '_' in var_name and var_name[-2]=='_' else var_name\<close>

  \<^verbatim>\<open>var_name[-2]\<close> raises IndexError on a name of fewer than two characters; it
  is evaluated only when the name contains an underscore.
\<close>

definition base_var_name :: "string \<Rightarrow> error + string" where
  "base_var_name var_name =
     (if CHR ''_'' \<in> set var_name then
        (if length var_name < 2 then Inl IndexError
         else if var_name ! (length var_name - 2) = CHR ''_''
              then Inr (takeWhile (\<lambda>ch. ch \<noteq> CHR ''_'') var_name)
              else Inr var_name)
      else Inr var_name)"

text \<open>
  A bracket table is a Python dict from codes to values. The code looked up is a
  float of the column, the keys are integers, and Python finds \<open>2.0\<close> under the
  key \<open>2\<close>: both are reals here.
\<close>

type_synonym table = "(real \<times> real) list"

definition map1 :: table where
  "map1 = [(1, 5000), (2, 20000), (3, 40000), (4, 60000), (5, 85000), (6, 200000),
           (7, 400000), (8, 750000), (9, 3000000), (10, 7500000), (11, 15000000)]"

definition vars_map1 :: "string list" where
  "vars_map1 = [''b2003ait'', ''b2050it'', ''b2059it'', ''b2063it'', ''b2080it'', ''d3109it'',
                ''d3110it'', ''d4103it'', ''d5107it'', ''d5108it'', ''d6100ait'', ''d8104it'',
                ''d9103it'', ''d9110ait'', ''k2102cit'', ''c3019ait'']"

definition map2_tbl :: table where
  "map2_tbl = map1"

definition vars_map2 :: "string list" where
  "vars_map2 = [''b2003bit'', ''b2052it'']"

definition map3 :: table where
  "map3 = [(1, 5000), (2, 15000), (3, 35000), (4, 75000), (5, 150000), (6, 250000),
           (7, 400000), (8, 750000), (9, 1500000), (10, 3500000), (11, 7500000)]"

definition vars_map3 :: "string list" where
  "vars_map3 = [''b2003eit'', ''b2055it'', ''a3136it'', ''d3117it'', ''b2046it'', ''b3004bit'',
                ''b3005bit'', ''b3005it'', ''b3006ait'', ''b3030dit'', ''b3030eit'', ''b3031ait'',
                ''b3045cit'', ''b3056ait'', ''c3017cait'', ''c3019cit'', ''c3019eit'', ''c7052bit'',
                ''c7060it'', ''c7061it'', ''c7062it'', ''c8007it'', ''d1105it'', ''d2104it'',
                ''d3103it'', ''d7106hit'', ''d7110ait'', ''e1006it'', ''e1022it'', ''e3003cit'',
                ''e4003it'', ''h2004it'', ''c2035ait'']"

definition map4 :: table where
  "map4 = [(1, 2500), (2, 7500), (3, 15000), (4, 35000), (5, 75000), (6, 125000),
           (7, 175000), (8, 250000), (9, 400000), (10, 750000), (11, 1500000)]"

definition vars_map4 :: "string list" where
  "vars_map4 = [''b2093it'', ''a3136ait'', ''a3136bit'', ''a3137it'', ''b2110it'', ''d5109it'',
                ''d7106jit'', ''d7112it'', ''d9105it'', ''d9108it'', ''d9110bit'', ''k1101it'',
                ''k2208it'', ''f1010it'', ''f1031it'']"

definition map5 :: table where
  "map5 = [(1, 500), (2, 1500), (3, 3500), (4, 7500), (5, 15000), (6, 35000), (7, 75000),
           (8, 150000)]"

definition vars_map5 :: "string list" where
  "vars_map5 = [''b3008fit'']"

definition map6 :: table where
  "map6 = [(1, 25), (2, 60.5), (3, 80.5), (4, 95.5), (5, 110.5), (6, 132), (7, 172), (8, 300)]"

definition vars_map6 :: "string list" where
  "vars_map6 = [''c1000bbit'']"

definition map7 :: table where
  "map7 = [(1, 50000), (2, 200000), (3, 400000), (4, 600000), (5, 850000), (6, 1250000),
           (7, 2250000), (8, 4000000), (9, 6000000), (10, 8500000), (11, 12500000),
           (12, 17500000), (13, 30000000)]"

definition vars_map7 :: "string list" where
  "vars_map7 = [''c1000bdit'']"

definition map8 :: table where
  "map8 = [(1, 5000), (2, 15000), (3, 35000), (4, 75000), (5, 150000), (6, 250000),
           (7, 400000), (8, 750000), (9, 1500000), (10, 3500000), (11, 6000000),
           (12, 8500000), (13, 12500000), (14, 17500000), (15, 30000000)]"

definition vars_map8 :: "string list" where
  "vars_map8 = [''c2000fit'']"

definition map9 :: table where
  "map9 = [(1, 5000), (2, 20000), (3, 40000), (4, 60000), (5, 85000), (6, 200000),
           (7, 400000), (8, 750000), (9, 3000000), (10, 7500000), (11, 12500000),
           (12, 17500000), (13, 30000000)]"

definition vars_map9 :: "string list" where
  "vars_map9 = [''c2013it'', ''c2016it'']"

definition map10 :: table where
  "map10 = [(1, 50000), (2, 150000), (3, 350000), (4, 650000), (5, 900000), (6, 1250000),
            (7, 1750000), (8, 3500000), (9, 6500000), (10, 9000000), (11, 15000000)]"

definition vars_map10 :: "string list" where
  "vars_map10 = [''c2027dit'', ''c2032it'', ''c2064it'']"

definition map11 :: table where
  "map11 = [(1, 500), (2, 2000), (3, 4000), (4, 6500), (5, 9000), (6, 12500), (7, 17500),
            (8, 25000), (9, 40000), (10, 75000)]"

definition vars_map11 :: "string list" where
  "vars_map11 = [''c2045it'']"

definition map12 :: table where
  "map12 = [(1, 25000), (2, 75000), (3, 150000), (4, 250000), (5, 400000), (6, 650000),
            (7, 900000), (8, 1250000), (9, 1750000), (10, 3500000), (11, 7500000)]"

definition vars_map12 :: "string list" where
  "vars_map12 = [''c3002it'', ''c3002ait'']"

definition map13 :: table where
  "map13 = [(1, 5000), (2, 15000), (3, 35000), (4, 75000), (5, 150000), (6, 250000),
            (7, 400000), (8, 750000), (9, 1500000), (10, 3500000), (11, 7500000)]"

definition vars_map13 :: "string list" where
  "vars_map13 = [''c3024it'', ''c3025it'', ''d4111it'', ''d6116it'']"

definition map14 :: table where
  "map14 = [(1, 1000), (2, 3500), (3, 7500), (4, 15000), (5, 35000), (6, 75000), (7, 125000),
            (8, 175000), (9, 250000), (10, 400000), (11, 750000)]"

definition vars_map14 :: "string list" where
  "vars_map14 = [''c8002ait'', ''g1017it'', ''g1018it'', ''g1019it'', ''g1019ait'', ''g1020it'',
                 ''c8005ait'', ''f2006it'', ''f4011it'']"

definition map15 :: table where
  "map15 = [(1, 10000), (2, 35000), (3, 75000), (4, 150000), (5, 350000), (6, 750000),
            (7, 1500000), (8, 3500000), (9, 7500000), (10, 15000000), (11, 30000000)]"

definition vars_map15 :: "string list" where
  "vars_map15 = [''d8106it'']"

definition map16 :: table where
  "map16 = [(1, 5000), (2, 15000), (3, 35000), (4, 75000), (5, 150000), (6, 250000),
            (7, 400000), (8, 750000), (9, 1500000), (10, 3500000), (11, 7500000)]"

definition vars_map16 :: "string list" where
  "vars_map16 = [''e3005cit'']"

definition map17 :: table where
  "map17 = [(1, 25), (2, 75), (3, 125), (4, 225), (5, 400), (6, 650), (7, 1150), (8, 2250),
            (9, 4000), (10, 7500), (11, 15000), (12, 25000), (13, 40000), (14, 75000)]"

definition vars_map17 :: "string list" where
  "vars_map17 = [''f1005it'']"

definition map18 :: table where
  "map18 = [(1, 100), (2, 250), (3, 400),
            (5, 750), (6, 1500), (7, 2500), (8, 4000), (9, 6500), (10, 11500), (11, 17500),
            (12, 30000)]"

definition vars_map18 :: "string list" where
  "vars_map18 = [''f4005it'']"

definition map19 :: table where
  "map19 = [(1, 500), (2, 2000), (3, 4000),
            (5, 7500), (6, 15000), (7, 35000), (8, 75000), (9, 125000), (10, 175000),
            (11, 250000), (12, 400000), (13, 750000), (14, 1500000)]"

definition vars_map19 :: "string list" where
  "vars_map19 = [''f4008it'']"

definition map20 :: table where
  "map20 = [(1, 250), (2, 750), (3, 1500), (4, 3500), (5, 7500), (6, 15000), (7, 30000)]"

definition vars_map20 :: "string list" where
  "vars_map20 = [''h3351it'']"

definition map21 :: table where
  "map21 = [(1, 250), (2, 750), (3, 2000), (4, 4000), (5, 7500), (6, 15000), (7, 35000),
            (8, 75000)]"

definition vars_map21 :: "string list" where
  "vars_map21 = [''h3354it'', ''h3356it'']"

definition map22 :: table where
  "map22 = [(1, 50), (2, 300), (3, 750), (4, 3000), (5, 7500), (6, 30000), (7, 75000)]"

definition vars_map22 :: "string list" where
  "vars_map22 = [''h3367it'', ''h3368it'', ''h3369it'']"

definition map23 :: table where
  "map23 = [(1, 150), (2, 450), (3, 800), (4, 1250), (5, 2250), (6, 4500), (7, 8000),
            (8, 15000), (9, 35000), (10, 75000), (11, 150000)]"

definition vars_map23 :: "string list" where
  "vars_map23 = [''g1024it'']"

text \<open>
  The chain \<^verbatim>\<open>if base_var_name in vars_mapK: return mapK.get(interval_code, np.nan)\<close>,
  in the order of the source, as the list of its (names, table) pairs.
\<close>

definition mappings :: "(string list \<times> table) list" where
  "mappings =
     [(vars_map1, map1), (vars_map2, map2_tbl), (vars_map3, map3), (vars_map4, map4),
      (vars_map5, map5), (vars_map6, map6), (vars_map7, map7), (vars_map8, map8),
      (vars_map9, map9), (vars_map10, map10), (vars_map11, map11), (vars_map12, map12),
      (vars_map13, map13), (vars_map14, map14), (vars_map15, map15), (vars_map16, map16),
      (vars_map17, map17), (vars_map18, map18), (vars_map19, map19), (vars_map20, map20),
      (vars_map21, map21), (vars_map22, map22), (vars_map23, map23)]"

text \<open>
  The chain itself: the first list that holds the name decides, with
  \<^verbatim>\<open>dict.get(code, np.nan)\<close>; after the last one, \<^verbatim>\<open>return np.nan\<close>.
\<close>

fun apply_mapping :: "(string list \<times> table) list \<Rightarrow> string \<Rightarrow> real \<Rightarrow> cell" where
  "apply_mapping [] b code = None"
| "apply_mapping ((vars, m) # rest) b code =
     (if b \<in> set vars then map_of m code else apply_mapping rest b code)"

definition get_midpoint :: "cell \<Rightarrow> string \<Rightarrow> error + cell" where
  "get_midpoint interval_code var_name =
     (case interval_code of
        None \<Rightarrow> Inr None
      | Some code \<Rightarrow>
          (case base_var_name var_name of
             Inl e \<Rightarrow> Inl e
           | Inr b \<Rightarrow> Inr (apply_mapping mappings b code)))"

text \<open>
  The bracket table a normalized name is bound to: the table of the first list
  of the chain that holds the name, if there is one.
\<close>

fun binding :: "(string list \<times> table) list \<Rightarrow> string \<Rightarrow> table option" where
  "binding [] b = None"
| "binding ((vars, m) # rest) b = (if b \<in> set vars then Some m else binding rest b)"

section \<open>Head-proxy extractor\<close>

text \<open>
  Lines 44 to 71 of the script, from the individual table to \<^verbatim>\<open>heads_df\<close> with
  its derived columns, and the count of the rows that the age filter removed. A missing
  \<^verbatim>\<open>a2001\<close> or \<^verbatim>\<open>a2005\<close> column ends the run with \<^verbatim>\<open>exit()\<close>.
\<close>

definition extract_heads :: "dataframe \<Rightarrow> error + dataframe \<times> int" where
  "extract_heads ind_df =
     (if \<not> has_col ind_df ''a2001'' then Inl Exit
      else
        let heads_df = filter_rows (map (\<lambda>x. eq_cell x 1) (get_col ind_df ''a2001'')) ind_df
        in if \<not> has_col heads_df ''a2005'' then Inl Exit
           else
             let heads_df = set_col ''head_age''
                   (map (sub_cell (Some 2017)) (get_col heads_df ''a2005'')) heads_df;
                 initial_head_count = nrows heads_df;
                 heads_df = filter_rows
                   (map (\<lambda>x. ge_cell x 16) (get_col heads_df ''head_age'')) heads_df;
                 removed_count = int initial_head_count - int (nrows heads_df);
                 heads_df = (if \<not> has_col heads_df ''a2028''
                             then set_const ''a2028'' (Some 0) heads_df else heads_df);
                 heads_df = (if \<not> has_col heads_df ''a2029''
                             then set_const ''a2029'' (Some 0) heads_df else heads_df);
                 heads_df = set_col ''head_siblings_raw''
                   (map2 add_cell (fillna 0 (get_col heads_df ''a2028''))
                                  (fillna 0 (get_col heads_df ''a2029''))) heads_df;
                 heads_df = set_col ''head_siblings''
                   (np_where_nan (map (\<lambda>x. le_cell x 40) (get_col heads_df ''head_age''))
                                 (get_col heads_df ''head_siblings_raw'')) heads_df
             in Inr (heads_df, removed_count))"

definition head_control_cols_map :: "(string \<times> string) list" where
  "head_control_cols_map =
     [(''hhid'', ''hhid''), (''head_age'', ''head_age''), (''a2003'', ''head_sex''),
      (''a2012'', ''head_educ''), (''a2024'', ''head_marital''), (''a2025b'', ''head_health''),
      (''head_siblings'', ''head_siblings'')]"

text \<open>\<^verbatim>\<open>df.drop_duplicates(subset=[c], keep='first')\<close>: the mask of the first occurrences.\<close>

fun first_occurrence :: "'a list \<Rightarrow> 'a list \<Rightarrow> bool list" where
  "first_occurrence seen [] = []"
| "first_occurrence seen (x # xs) = (x \<notin> set seen) # first_occurrence (x # seen) xs"

text \<open>
  Lines 83 to 86: the columns of the map that exist, renamed, one row per \<^verbatim>\<open>hhid\<close>.
  \<^verbatim>\<open>drop_duplicates\<close> raises KeyError when there is no \<^verbatim>\<open>hhid\<close> column.
\<close>

definition head_info_to_merge :: "dataframe \<Rightarrow> error + dataframe" where
  "head_info_to_merge heads_df =
     (let head_cols_to_select = filter (has_col heads_df) (map fst head_control_cols_map);
          final_head_cols_map =
            filter (\<lambda>(k, v). k \<in> set head_cols_to_select) head_control_cols_map;
          renamed = \<lparr>nrows = nrows heads_df,
                     cols = map_of (map (\<lambda>(k, v). (v, get_col heads_df k)) final_head_cols_map)\<rparr>
      in if \<not> has_col renamed ''hhid'' then Inl KeyError
         else Inr (filter_rows (first_occurrence [] (get_col renamed ''hhid'')) renamed))"

section \<open>The catalog of debt and asset fields\<close>

definition debt_bus_bank :: "string list" where
  "debt_bus_bank = [''b3005b_2'']"

definition debt_bus_private :: "string list" where
  "debt_bus_private = [''b3031a_2'']"

definition debt_bus_private_it :: "string list" where
  "debt_bus_private_it = [''b3031ait_2'']"

definition debt_house_bank :: "string list" where
  "debt_house_bank = [''c2064_1'', ''c2064_2'', ''c2064_3'', ''c2064_4'', ''c2064_5'', ''c2064_6'']"

definition debt_house_bank_it :: "string list" where
  "debt_house_bank_it = [''c2064it_1'', ''c2064it_2'', ''c2064it_3'', ''c2064it_4'', ''c2064it_5'', ''c2064it_6'']"

definition debt_house_other :: "string list" where
  "debt_house_other = [''c3002a_1'', ''c3002a_2'', ''c3002a_3'', ''c3002a_4'', ''c3002a_5'', ''c3002a_6'']"

definition debt_house_other_it :: "string list" where
  "debt_house_other_it = [''c3002ait_1'', ''c3002ait_2'', ''c3002ait_3'', ''c3002ait_4'', ''c3002ait_5'', ''c3002ait_6'']"

definition debt_house_agg_other :: "string list" where
  "debt_house_agg_other = [''c2023e'']"

definition debt_house_agg_other_it :: "string list" where
  "debt_house_agg_other_it = [''c2023eit'']"

definition debt_house_collateral :: "string list" where
  "debt_house_collateral = [''c3017ca'']"

definition debt_house_collateral_it :: "string list" where
  "debt_house_collateral_it = [''c3017cait'']"

definition debt_shop_bank :: "string list" where
  "debt_shop_bank = [''c3019c'']"

definition debt_shop_bank_it :: "string list" where
  "debt_shop_bank_it = [''c3019cit'']"

definition debt_shop_other :: "string list" where
  "debt_shop_other = [''c3019e'']"

definition debt_shop_other_it :: "string list" where
  "debt_shop_other_it = [''c3019eit'']"

definition debt_car :: "string list" where
  "debt_car = [''c7060'']"

definition debt_car_it :: "string list" where
  "debt_car_it = [''c7060it'']"

definition debt_vehicle_other :: "string list" where
  "debt_vehicle_other = [''c7061'']"

definition debt_vehicle_other_it :: "string list" where
  "debt_vehicle_other_it = [''c7061it'']"

definition debt_durable :: "string list" where
  "debt_durable = [''c8007'']"

definition debt_durable_it :: "string list" where
  "debt_durable_it = [''c8007it'']"

definition debt_stock :: "string list" where
  "debt_stock = [''d3116b'']"

definition debt_finance_other :: "string list" where
  "debt_finance_other = [''d9108'']"

definition debt_finance_other_it :: "string list" where
  "debt_finance_other_it = [''d9108it'']"

definition debt_edu_bank :: "string list" where
  "debt_edu_bank = [''e1006'']"

definition debt_edu_bank_it :: "string list" where
  "debt_edu_bank_it = [''e1006it'']"

definition debt_edu_private :: "string list" where
  "debt_edu_private = [''e1022'']"

definition debt_edu_private_it :: "string list" where
  "debt_edu_private_it = [''e1022it'']"

definition debt_medical :: "string list" where
  "debt_medical = [''e4003'']"

definition debt_medical_it :: "string list" where
  "debt_medical_it = [''e4003it'']"

definition debt_other :: "string list" where
  "debt_other = [''e3003c'']"

definition debt_other_it :: "string list" where
  "debt_other_it = [''e3003cit'']"

definition all_debt_exact_vars :: "string list" where
  "all_debt_exact_vars =
     debt_bus_bank @ debt_bus_private @ debt_house_bank @ debt_house_other @
     debt_house_agg_other @ debt_house_collateral @ debt_shop_bank @ debt_shop_other @
     debt_car @ debt_vehicle_other @ debt_durable @ debt_stock @ debt_finance_other @
     debt_edu_bank @ debt_edu_private @ debt_medical @ debt_other"

definition all_debt_interval_vars :: "string list" where
  "all_debt_interval_vars =
     debt_bus_private_it @ debt_house_bank_it @ debt_house_other_it @
     debt_house_agg_other_it @ debt_house_collateral_it @ debt_shop_bank_it @
     debt_shop_other_it @ debt_car_it @ debt_vehicle_other_it @ debt_durable_it @
     debt_finance_other_it @ debt_edu_bank_it @ debt_edu_private_it @ debt_medical_it @
     debt_other_it"

definition asset_bus :: "string list" where
  "asset_bus = [''b2003d'']"

definition asset_bus_it :: "string list" where
  "asset_bus_it = [''b2003dit'']"

definition asset_house :: "string list" where
  "asset_house = [''c2016_1'', ''c2016_2'', ''c2016_3'', ''c2016_4'', ''c2016_5'', ''c2016_6'']"

definition asset_house_it :: "string list" where
  "asset_house_it = [''c2016it_1'', ''c2016it_2'', ''c2016it_3'', ''c2016it_4'', ''c2016it_5'', ''c2016it_6'']"

definition asset_house_agg_other :: "string list" where
  "asset_house_agg_other = [''c2023d'']"

definition asset_house_agg_other_it :: "string list" where
  "asset_house_agg_other_it = [''c2023dit'']"

definition asset_shop :: "string list" where
  "asset_shop = [''c3019a'']"

definition asset_shop_it :: "string list" where
  "asset_shop_it = [''c3019ait'']"

definition asset_car :: "string list" where
  "asset_car = [''c7052b'']"

definition asset_car_it :: "string list" where
  "asset_car_it = [''c7052bit'']"

definition asset_vehicle_comm :: "string list" where
  "asset_vehicle_comm = [''c7059'']"

definition asset_vehicle_other :: "string list" where
  "asset_vehicle_other = [''c7058'']"

definition vehicle_in_business_col :: string where
  "vehicle_in_business_col = ''c7062''"

definition vehicle_in_business_col_it :: string where
  "vehicle_in_business_col_it = ''c7062it''"

definition asset_durable :: "string list" where
  "asset_durable = [''c8002'']"

definition asset_other_nonfin :: "string list" where
  "asset_other_nonfin = [''c8005'']"

definition asset_deposit_checking :: "string list" where
  "asset_deposit_checking = [''d1105'']"

definition asset_deposit_checking_it :: "string list" where
  "asset_deposit_checking_it = [''d1105it'']"

definition asset_deposit_savings :: "string list" where
  "asset_deposit_savings = [''d2104'']"

definition asset_deposit_savings_it :: "string list" where
  "asset_deposit_savings_it = [''d2104it'']"

definition asset_stock_cash :: "string list" where
  "asset_stock_cash = [''d3103'']"

definition asset_stock_cash_it :: "string list" where
  "asset_stock_cash_it = [''d3103it'']"

definition asset_stock_value :: "string list" where
  "asset_stock_value = [''d3109'']"

definition asset_stock_value_it :: "string list" where
  "asset_stock_value_it = [''d3109it'']"

definition asset_stock_nonpublic :: "string list" where
  "asset_stock_nonpublic = [''d3116'']"

definition asset_stock_nonpublic_it :: "string list" where
  "asset_stock_nonpublic_it = [''d3116it'']"

definition asset_fund :: "string list" where
  "asset_fund = [''d5107'']"

definition asset_fund_it :: "string list" where
  "asset_fund_it = [''d5107it'']"

definition asset_internet_finance :: "string list" where
  "asset_internet_finance = [''d7106h'']"

definition asset_internet_finance_it :: "string list" where
  "asset_internet_finance_it = [''d7106hit'']"

definition asset_other_finance_prod :: "string list" where
  "asset_other_finance_prod = [''d7110a'']"

definition asset_other_finance_prod_it :: "string list" where
  "asset_other_finance_prod_it = [''d7110ait'']"

definition asset_bond :: "string list" where
  "asset_bond = [''d4103_1'', ''d4103_2'', ''d4103_3'', ''d4103_4'', ''d4103_5'']"

definition asset_bond_it :: "string list" where
  "asset_bond_it = [''d4103it_1'', ''d4103it_2'', ''d4103it_3'', ''d4103it_4'', ''d4103it_5'']"

definition asset_derivative :: "string list" where
  "asset_derivative = [''d6100a'']"

definition asset_derivative_it :: "string list" where
  "asset_derivative_it = [''d6100ait'']"

definition asset_non_rmb :: "string list" where
  "asset_non_rmb = [''d8104'']"

definition asset_non_rmb_it :: "string list" where
  "asset_non_rmb_it = [''d8104it'']"

definition asset_gold :: "string list" where
  "asset_gold = [''d9103'']"

definition asset_gold_it :: "string list" where
  "asset_gold_it = [''d9103it'']"

definition asset_other_fin :: "string list" where
  "asset_other_fin = [''d9110a'']"

definition asset_other_fin_it :: "string list" where
  "asset_other_fin_it = [''d9110ait'']"

definition asset_cash :: "string list" where
  "asset_cash = [''k1101'']"

definition asset_cash_it :: "string list" where
  "asset_cash_it = [''k1101it'']"

definition asset_receivable :: "string list" where
  "asset_receivable = [''k2102c'']"

definition asset_receivable_it :: "string list" where
  "asset_receivable_it = [''k2102cit'']"

definition all_asset_exact_vars :: "string list" where
  "all_asset_exact_vars =
     asset_bus @ asset_house @ asset_house_agg_other @ asset_shop @ asset_car @
     asset_vehicle_comm @ asset_vehicle_other @ asset_durable @ asset_other_nonfin @
     asset_deposit_checking @ asset_deposit_savings @ asset_stock_cash @
     asset_stock_value @ asset_stock_nonpublic @ asset_fund @ asset_internet_finance @
     asset_other_finance_prod @ asset_bond @ asset_derivative @ asset_non_rmb @
     asset_gold @ asset_other_fin @ asset_cash @ asset_receivable"

definition all_asset_interval_vars :: "string list" where
  "all_asset_interval_vars =
     asset_bus_it @ asset_house_it @ asset_house_agg_other_it @ asset_shop_it @
     asset_car_it @ asset_deposit_checking_it @ asset_deposit_savings_it @
     asset_stock_cash_it @ asset_stock_value_it @ asset_stock_nonpublic_it @
     asset_fund_it @ asset_internet_finance_it @ asset_other_finance_prod_it @
     asset_bond_it @ asset_derivative_it @ asset_non_rmb_it @ asset_gold_it @
     asset_other_fin_it @ asset_cash_it @ asset_receivable_it"

section \<open>Field coalescer\<close>

text \<open>
  Lines 288 to 297. \<^verbatim>\<open>list(set(...))\<close> keeps one copy of every name, in an order
  Python does not fix; the loop creates the same columns and counts the same number in
  any order.
\<close>

definition all_vars_needed :: "string list" where
  "all_vars_needed =
     remdups (all_debt_exact_vars @ all_debt_interval_vars @
              all_asset_exact_vars @ all_asset_interval_vars @
              [vehicle_in_business_col, vehicle_in_business_col_it])"

fun synthesize :: "string list \<Rightarrow> dataframe \<times> nat \<Rightarrow> dataframe \<times> nat" where
  "synthesize [] st = st"
| "synthesize (col # rest) (hh_df, missing_cols_count) =
     (if \<not> has_col hh_df col
      then synthesize rest (set_const col None hh_df, missing_cols_count + 1)
      else synthesize rest (hh_df, missing_cols_count))"

text \<open>
  One pass of the body of the loops of lines 302 to 317 and 321 to 336, at index \<open>i\<close>.
  \<^verbatim>\<open>interval and interval in hh_df\<close> holds for a name that is not \<^verbatim>\<open>None\<close>, not
  empty and a column of the frame.
\<close>

definition coalesce_step ::
  "string list \<Rightarrow> string list \<Rightarrow> nat \<Rightarrow> dataframe \<times> string list
     \<Rightarrow> error + dataframe \<times> string list" where
  "coalesce_step exact_vars interval_vars i st =
     (let hh_df = fst st; coalesced_vars = snd st;
          exact = exact_vars ! i;
          interval = (if i < length interval_vars then Some (interval_vars ! i) else None);
          val_col = exact @ ''_val''
      in if \<not> has_col hh_df exact then Inr (set_const val_col None hh_df, coalesced_vars)
         else
           (case interval of
              Some iv \<Rightarrow>
                if iv \<noteq> [] \<and> has_col hh_df iv then
                  (case series_apply (\<lambda>x. get_midpoint x iv) (get_col hh_df iv) of
                     Inl e \<Rightarrow> Inl e
                   | Inr midpoint_col \<Rightarrow>
                       Inr (set_col val_col (combine_first (get_col hh_df exact) midpoint_col) hh_df,
                            coalesced_vars @ [val_col]))
                else Inr (set_col val_col (get_col hh_df exact) hh_df, coalesced_vars @ [val_col])
            | None \<Rightarrow>
                Inr (set_col val_col (get_col hh_df exact) hh_df, coalesced_vars @ [val_col])))"

fun coalesce_loop ::
  "string list \<Rightarrow> string list \<Rightarrow> nat list \<Rightarrow> dataframe \<times> string list
     \<Rightarrow> error + dataframe \<times> string list" where
  "coalesce_loop exact_vars interval_vars [] st = Inr st"
| "coalesce_loop exact_vars interval_vars (i # rest) st =
     (case coalesce_step exact_vars interval_vars i st of
        Inl e \<Rightarrow> Inl e
      | Inr st' \<Rightarrow> coalesce_loop exact_vars interval_vars rest st')"

text \<open>\<^verbatim>\<open>for i in range(len(exact_vars))\<close>, from an empty list of coalesced names.\<close>

definition coalesce ::
  "string list \<Rightarrow> string list \<Rightarrow> dataframe \<Rightarrow> error + dataframe \<times> string list" where
  "coalesce exact_vars interval_vars hh_df =
     coalesce_loop exact_vars interval_vars [0..<length exact_vars] (hh_df, [])"

text \<open>Lines 339 to 346: the vehicle-in-business adjustment.\<close>

definition vehicle_adj_val_col :: string where
  "vehicle_adj_val_col = vehicle_in_business_col @ ''_val''"

definition vehicle_adjust :: "dataframe \<Rightarrow> error + dataframe" where
  "vehicle_adjust hh_df =
     (if has_col hh_df vehicle_in_business_col \<and> has_col hh_df vehicle_in_business_col_it then
        (case series_apply (\<lambda>x. get_midpoint x vehicle_in_business_col_it)
                (get_col hh_df vehicle_in_business_col_it) of
           Inl e \<Rightarrow> Inl e
         | Inr midpoint_veh_adj \<Rightarrow>
             Inr (set_col vehicle_adj_val_col
                    (combine_first (get_col hh_df vehicle_in_business_col) midpoint_veh_adj) hh_df))
      else if has_col hh_df vehicle_in_business_col then
        Inr (set_col vehicle_adj_val_col (get_col hh_df vehicle_in_business_col) hh_df)
      else Inr (set_const vehicle_adj_val_col (Some 0) hh_df))"

section \<open>Household aggregator\<close>

text \<open>
  \<^verbatim>\<open>hh_df[names].fillna(0).sum(axis=1)\<close>: the sum of every row over the named
  columns, \<open>0\<close> for a frame of no columns.
\<close>

definition sum_axis1 :: "nat \<Rightarrow> series list \<Rightarrow> series" where
  "sum_axis1 n ss = foldl (map2 add_cell) (replicate n (Some 0)) (map (fillna 0) ss)"

text \<open>Python's \<^verbatim>\<open>max(x, 0)\<close> is \<open>0\<close> when \<open>0 > x\<close> and \<open>x\<close> otherwise, so NaN stays.\<close>

fun py_max0 :: "cell \<Rightarrow> cell" where
  "py_max0 (Some x) = (if 0 > x then Some 0 else Some x)"
| "py_max0 None = None"

text \<open>Lines 349 to 357.\<close>

definition totals :: "string list \<Rightarrow> string list \<Rightarrow> dataframe \<Rightarrow> dataframe" where
  "totals coalesced_debt_vars coalesced_asset_vars hh_df =
     (let valid_coalesced_debt_vars = filter (has_col hh_df) coalesced_debt_vars;
          valid_coalesced_asset_vars = filter (has_col hh_df) coalesced_asset_vars;
          hh_df = set_col ''total_debt''
             (sum_axis1 (nrows hh_df) (map (get_col hh_df) valid_coalesced_debt_vars)) hh_df;
          hh_df = set_col ''total_assets_raw''
             (sum_axis1 (nrows hh_df) (map (get_col hh_df) valid_coalesced_asset_vars)) hh_df;
          vehicle_adjustment =
             (if has_col hh_df vehicle_adj_val_col
              then fillna 0 (get_col hh_df vehicle_adj_val_col)
              else replicate (nrows hh_df) (Some 0));
          hh_df = set_col ''total_assets''
             (map2 sub_cell (get_col hh_df ''total_assets_raw'') vehicle_adjustment) hh_df;
          hh_df = set_col ''total_assets'' (map py_max0 (get_col hh_df ''total_assets'')) hh_df
      in hh_df)"

text \<open>Lines 362 to 365.\<close>

definition epsilon :: real where
  "epsilon = 1 / 10 ^ 9"

definition add_debt_ratio :: "dataframe \<Rightarrow> dataframe" where
  "add_debt_ratio hh_df =
     (let hh_df = set_col ''debt_ratio''
            (map2 div_cell (get_col hh_df ''total_debt'')
               (map (\<lambda>x. add_cell x (Some epsilon)) (get_col hh_df ''total_assets''))) hh_df;
          hh_df = set_col ''debt_ratio''
            (loc_assign
               (map2 (\<and>) (map (\<lambda>x. eq_cell x 0) (get_col hh_df ''total_debt''))
                          (map (\<lambda>x. eq_cell x 0) (get_col hh_df ''total_assets'')))
               (Some 0) (get_col hh_df ''debt_ratio'')) hh_df;
          hh_df = set_col ''debt_ratio''
            (loc_assign
               (map2 (\<and>) (map (\<lambda>x. gt_cell x 0) (get_col hh_df ''total_debt''))
                          (map (\<lambda>x. eq_cell x 0) (get_col hh_df ''total_assets'')))
               None (get_col hh_df ''debt_ratio'')) hh_df
      in hh_df)"

section \<open>Winsorization\<close>

text \<open>
  \<^verbatim>\<open>scipy.stats.mstats.winsorize(a, limits=[0.01, 0.01])\<close> on an array without
  NaN, as scipy's \<^verbatim>\<open>_winsorize1D\<close> does it:
  \<^verbatim>\<open>
    n = a.count()
    idx = a.argsort()
    lowidx = int(low_limit * n)
    a[idx[:lowidx]] = a[idx[lowidx]]
    upidx = n - int(n * up_limit)
    a[idx[upidx:]] = a[idx[upidx - 1]]
  \<close>
  \<^verbatim>\<open>int(0.01 * n)\<close> is \<open>n div 100\<close>. \<^verbatim>\<open>idx[lowidx]\<close> raises IndexError on an
  empty array. The order numpy's argsort gives to equal values is not fixed; the
  model takes the stable one.
\<close>

definition argsort :: "real list \<Rightarrow> nat list" where
  "argsort a = sort_key (\<lambda>i. a ! i) [0..<length a]"

text \<open>\<^verbatim>\<open>a[positions] = v\<close>\<close>

definition assign_at :: "nat list \<Rightarrow> 'a \<Rightarrow> 'a list \<Rightarrow> 'a list" where
  "assign_at positions v a = fold (\<lambda>i b. b[i := v]) positions a"

definition winsorize :: "real list \<Rightarrow> error + real list" where
  "winsorize a =
     (if a = [] then Inl IndexError
      else
        let n = length a;
            idx = argsort a;
            lowidx = n div 100;
            a = assign_at (take lowidx idx) (a ! (idx ! lowidx)) a;
            upidx = n - n div 100;
            a = assign_at (drop upidx idx) (a ! (idx ! (upidx - 1))) a
        in Inr a)"

text \<open>\<^verbatim>\<open>s.replace([np.inf, -np.inf], np.nan).dropna()\<close>: the values that are not NaN.\<close>

fun dropna :: "series \<Rightarrow> real list" where
  "dropna [] = []"
| "dropna (None # s) = dropna s"
| "dropna (Some v # s) = v # dropna s"

text \<open>
  \<^verbatim>\<open>pd.Series(values, index=debt_ratio_clean.index)\<close> assigned to a column of the
  frame: the values at the rows of the index, NaN at the other rows.
\<close>

fun reinsert :: "series \<Rightarrow> real list \<Rightarrow> series" where
  "reinsert [] ws = []"
| "reinsert (None # s) ws = None # reinsert s ws"
| "reinsert (Some v # s) (w # ws) = Some w # reinsert s ws"
| "reinsert (Some v # s) [] = None # reinsert s []"

text \<open>
  Lines 370 to 377, from the column \<open>src\<close> into the column \<open>dst\<close>; the script has
  \<^verbatim>\<open>debt_ratio\<close> and \<^verbatim>\<open>debt_ratio_winsorized\<close>.
\<close>

definition winsorize_col :: "string \<Rightarrow> string \<Rightarrow> dataframe \<Rightarrow> error + dataframe" where
  "winsorize_col src dst hh_df =
     (let debt_ratio_clean = dropna (get_col hh_df src)
      in if debt_ratio_clean \<noteq> [] then
           (case winsorize debt_ratio_clean of
              Inl e \<Rightarrow> Inl e
            | Inr winsorized_values \<Rightarrow>
                Inr (set_col dst (reinsert (get_col hh_df src) winsorized_values) hh_df))
         else Inr (set_const dst None hh_df))"

section \<open>The household pipeline\<close>

text \<open>
  Lines 288 to 377 on the household table: the frame with its derived columns, and
  the count of the columns that were created as missing.
\<close>

definition process_households :: "dataframe \<Rightarrow> error + dataframe \<times> nat" where
  "process_households hh_df =
     (case synthesize all_vars_needed (hh_df, 0) of (hh_df, missing_cols_count) \<Rightarrow>
      case coalesce all_debt_exact_vars all_debt_interval_vars hh_df of
        Inl e \<Rightarrow> Inl e
      | Inr (hh_df, coalesced_debt_vars) \<Rightarrow>
      case coalesce all_asset_exact_vars all_asset_interval_vars hh_df of
        Inl e \<Rightarrow> Inl e
      | Inr (hh_df, coalesced_asset_vars) \<Rightarrow>
      case vehicle_adjust hh_df of
        Inl e \<Rightarrow> Inl e
      | Inr hh_df \<Rightarrow>
      case winsorize_col ''debt_ratio'' ''debt_ratio_winsorized''
             (add_debt_ratio (totals coalesced_debt_vars coalesced_asset_vars hh_df)) of
        Inl e \<Rightarrow> Inl e
      | Inr hh_df \<Rightarrow> Inr (hh_df, missing_cols_count))"

section \<open>Notions used in the statements\<close>

text \<open>A cell with NaN read as \<open>0\<close>, as \<^verbatim>\<open>fillna(0)\<close> leaves it.\<close>

definition zero_filled :: "cell \<Rightarrow> real" where
  "zero_filled x = (case x of None \<Rightarrow> 0 | Some v \<Rightarrow> v)"

text \<open>\<^verbatim>\<open>heads_df\<close> after the age filter of line 60.\<close>

definition heads_stage3 :: "dataframe \<Rightarrow> dataframe" where
  "heads_stage3 ind_df =
     (let h1 = filter_rows (map (\<lambda>x. eq_cell x 1) (get_col ind_df ''a2001'')) ind_df;
          h2 = set_col ''head_age'' (map (sub_cell (Some 2017)) (get_col h1 ''a2005'')) h1
      in filter_rows (map (\<lambda>x. ge_cell x 16) (get_col h2 ''head_age'')) h2)"

text \<open>
  The computed ages, \<open>2017\<close> minus the birth year, of the individuals with
  relationship code \<open>1\<close>, in row order.
\<close>

definition code1_ages :: "dataframe \<Rightarrow> series" where
  "code1_ages ind_df =
     map (sub_cell (Some 2017))
       (mask_select (map (\<lambda>x. eq_cell x 1) (get_col ind_df ''a2001'')) (get_col ind_df ''a2005''))"

text \<open>
  An individual table of four persons in three households: a respondent of 37 with
  two brothers, a spouse, a respondent of 7, and a respondent of 67 with three
  brothers. The table has no \<^verbatim>\<open>a2029\<close> column.
\<close>

definition example_ind_df :: dataframe where
  "example_ind_df =
     \<lparr>nrows = 4,
      cols = [''hhid'' \<mapsto> [Some 1, Some 1, Some 2, Some 3],
              ''a2001'' \<mapsto> [Some 1, Some 2, Some 1, Some 1],
              ''a2005'' \<mapsto> [Some 1980, Some 1985, Some 2010, Some 1950],
              ''a2028'' \<mapsto> [Some 2, None, None, Some 3]]\<rparr>"

definition example_heads_df :: dataframe where
  "example_heads_df = fst (projr (extract_heads example_ind_df))"

text \<open>Clipping a value to the interval from \<open>lo\<close> to \<open>hi\<close>.\<close>

definition clip :: "real \<Rightarrow> real \<Rightarrow> real \<Rightarrow> real" where
  "clip lo hi x = min hi (max lo x)"

text \<open>A field name on which the normalization of \<^verbatim>\<open>get_midpoint\<close> does not raise.\<close>

definition name_ok :: "string \<Rightarrow> bool" where
  "name_ok v = (\<not> (CHR ''_'' \<in> set v \<and> length v < 2))"

text \<open>The midpoint estimate of a code of the interval field \<open>iv\<close>.\<close>

definition midpoint_of :: "string \<Rightarrow> cell \<Rightarrow> cell" where
  "midpoint_of iv x = (case get_midpoint x iv of Inr y \<Rightarrow> y | Inl e \<Rightarrow> None)"

text \<open>The interval field the loops pair with the exact field at index \<open>i\<close>:
  \<^verbatim>\<open>interval_vars[i] if i < len(interval_vars) else None\<close>.\<close>

definition paired :: "string list \<Rightarrow> nat \<Rightarrow> string option" where
  "paired interval_vars i = (if i < length interval_vars then Some (interval_vars ! i) else None)"

text \<open>The column one pass of the coalescing loop computes for an exact field and the
  interval field paired with it, from the frame \<open>df\<close>.\<close>

definition coalesced_column :: "dataframe \<Rightarrow> string \<Rightarrow> string option \<Rightarrow> series" where
  "coalesced_column df exact interval =
     (if \<not> has_col df exact then replicate (nrows df) None
      else case interval of
             Some iv \<Rightarrow>
               if iv \<noteq> [] \<and> has_col df iv
               then combine_first (get_col df exact) (map (midpoint_of iv) (get_col df iv))
               else get_col df exact
           | None \<Rightarrow> get_col df exact)"

text \<open>A name that is not the name of a coalesced column.\<close>

definition not_val :: "string \<Rightarrow> bool" where
  "not_val x = (\<forall>e. x \<noteq> e @ ''_val'')"

text \<open>The column lines 339 to 346 compute for the vehicle-in-business adjustment.\<close>

definition vehicle_column :: "dataframe \<Rightarrow> series" where
  "vehicle_column df =
     (if has_col df vehicle_in_business_col \<and> has_col df vehicle_in_business_col_it then
        combine_first (get_col df vehicle_in_business_col)
          (map (midpoint_of vehicle_in_business_col_it) (get_col df vehicle_in_business_col_it))
      else if has_col df vehicle_in_business_col then get_col df vehicle_in_business_col
      else replicate (nrows df) (Some 0))"

text \<open>The debt ratio of one household, from its total debt and its total assets, as the
  three assignments of lines 363 to 365 leave it.\<close>

definition debt_ratio_cell :: "cell \<Rightarrow> cell \<Rightarrow> cell" where
  "debt_ratio_cell d a =
     (if gt_cell d 0 \<and> eq_cell a 0 then None
      else if eq_cell d 0 \<and> eq_cell a 0 then Some 0
      else div_cell d (add_cell a (Some epsilon)))"

text \<open>The household frame after the missing columns of the catalog are created.\<close>

definition synthesized :: "dataframe \<Rightarrow> dataframe" where
  "synthesized hh_df = fst (synthesize all_vars_needed (hh_df, 0))"

text \<open>The names of the coalesced columns of a list of exact fields.\<close>

definition val_cols :: "string list \<Rightarrow> string list" where
  "val_cols exact_vars = map (\<lambda>e. e @ ''_val'') exact_vars"

text \<open>The columns the aggregator and the winsorization add.\<close>

definition derived_cols :: "string set" where
  "derived_cols = {''total_debt'', ''total_assets_raw'', ''total_assets'', ''debt_ratio'',
                   ''debt_ratio_winsorized''}"

text \<open>The pairs of an exact field and the interval field of the same index that the loop
  \<^verbatim>\<open>for i in range(len(exact_vars))\<close> goes through.\<close>

definition pairing :: "string list \<Rightarrow> string list \<Rightarrow> (string \<times> string option) list" where
  "pairing exact_vars interval_vars =
     map (\<lambda>i. (exact_vars ! i, paired interval_vars i)) [0..<length exact_vars]"

text \<open>The cell of a household in a column of the source table, missing when the table
  has no such column.\<close>

definition cell_of :: "dataframe \<Rightarrow> string \<Rightarrow> nat \<Rightarrow> cell" where
  "cell_of df c j = (if has_col df c then get_col df c ! j else None)"

text \<open>The coalesced value of one household: the exact value when it is present, else
  the midpoint estimate of the code in the interval field, else missing.\<close>

definition coalesced_cell :: "dataframe \<Rightarrow> string \<Rightarrow> string option \<Rightarrow> nat \<Rightarrow> cell" where
  "coalesced_cell df exact interval j =
     (case cell_of df exact j of
        Some v \<Rightarrow> Some v
      | None \<Rightarrow> (case interval of Some iv \<Rightarrow> midpoint_of iv (cell_of df iv j) | None \<Rightarrow> None))"

text \<open>A household table of four households, with the exact and the interval field of the
  shop value, the medical debt and the vehicle-in-business value.\<close>

definition example_hh_df :: dataframe where
  "example_hh_df =
     \<lparr>nrows = 4,
      cols = [''hhid'' \<mapsto> [Some 1, Some 2, Some 3, Some 4],
              ''c3019a'' \<mapsto> [Some 20000, None, None, None],
              ''c3019ait'' \<mapsto> [Some 2, Some 1, None, None],
              ''e4003'' \<mapsto> [Some 6000, Some 500, None, Some 500],
              ''c7062'' \<mapsto> [Some 1000, None, Some 7000, None]]\<rparr>"

text \<open>A household table that has the interval field of the shop value and not the exact
  field.\<close>

definition example_absent_hh :: dataframe where
  "example_absent_hh = \<lparr>nrows = 1, cols = [''c3019ait'' \<mapsto> [Some 1]]\<rparr>"

text \<open>A household table of one household with no exact value, the interval code \<open>1\<close> of the
  checking deposits and the interval code \<open>1\<close> of the private business loans.\<close>

definition example_mispaired_hh :: dataframe where
  "example_mispaired_hh =
     \<lparr>nrows = 1,
      cols = [''c7059'' \<mapsto> [None], ''d1105'' \<mapsto> [None], ''d1105it'' \<mapsto> [Some 1],
              ''b3005b_2'' \<mapsto> [None], ''b3031a_2'' \<mapsto> [None],
              ''b3031ait_2'' \<mapsto> [Some 1]]\<rparr>"

section \<open>Proofs: midpoint resolver\<close>

lemmas tbl_defs = map1_def map2_tbl_def map3_def map4_def map5_def map6_def map7_def map8_def
  map9_def map10_def map11_def map12_def map13_def map14_def map15_def map16_def map17_def
  map18_def map19_def map20_def map21_def map22_def map23_def

lemmas vars_defs = vars_map1_def vars_map2_def vars_map3_def vars_map4_def vars_map5_def
  vars_map6_def vars_map7_def vars_map8_def vars_map9_def vars_map10_def vars_map11_def
  vars_map12_def vars_map13_def vars_map14_def vars_map15_def vars_map16_def vars_map17_def
  vars_map18_def vars_map19_def vars_map20_def vars_map21_def vars_map22_def vars_map23_def

lemma apply_mapping_binding:
  "apply_mapping ms b code = (case binding ms b of None \<Rightarrow> None | Some m \<Rightarrow> map_of m code)"
  by (induction ms) auto

lemma apply_mapping_no_key:
  "\<forall>(vars, m) \<in> set ms. map_of m code = None \<Longrightarrow> apply_mapping ms b code = None"
  by (induction ms) auto

lemma mappings_keys:
  "\<forall>(vars, m) \<in> set mappings. \<forall>k \<in> fst ` set m. 1 \<le> k \<and> k \<le> 15"
  by (simp add: mappings_def tbl_defs)

lemma mappings_out_of_range:
  assumes "code < 1 \<or> 15 < code"
  shows "apply_mapping mappings b code = None"
proof (rule apply_mapping_no_key, clarify)
  fix vars m assume "(vars, m) \<in> set mappings"
  with mappings_keys have "\<forall>k \<in> fst ` set m. 1 \<le> k \<and> k \<le> 15" by blast
  with assms have "code \<notin> fst ` set m" by auto
  then show "map_of m code = None" by (simp add: map_of_eq_None_iff)
qed

lemma get_midpoint_unbound:
  "base_var_name var_name = Inr b \<Longrightarrow> binding mappings b = None \<Longrightarrow>
   get_midpoint code var_name = Inr None"
  by (simp add: get_midpoint_def apply_mapping_binding split: option.splits)

lemma get_midpoint_absent_code:
  "base_var_name var_name = Inr b \<Longrightarrow> binding mappings b = Some tbl \<Longrightarrow>
   c \<notin> fst ` set tbl \<Longrightarrow> get_midpoint (Some c) var_name = Inr None"
  by (simp add: get_midpoint_def apply_mapping_binding map_of_eq_None_iff)

lemma get_midpoint_out_of_range:
  "base_var_name var_name = Inr b \<Longrightarrow> c < 1 \<or> 15 < c \<Longrightarrow>
   get_midpoint (Some c) var_name = Inr None"
  by (simp add: get_midpoint_def mappings_out_of_range)

text \<open>
  Claim C2. \<^verbatim>\<open>get_midpoint\<close> returns missing (NaN, here \<open>None\<close>) when the code is
  missing, when the normalized field name \<open>b\<close> is bound to no bracket table, and when
  the code is not a key of the table the name is bound to; the last covers the code
  \<open>0\<close>, every code below \<open>1\<close> or above \<open>15\<close>, and the codes in the gaps of a table.
  In none of these cases is the result a number, so it is neither \<open>0\<close> nor the value
  of another bracket.
\<close>

theorem get_midpoint_missing:
  "get_midpoint None var_name = Inr None \<and>
   (base_var_name var_name = Inr b \<longrightarrow> binding mappings b = None \<longrightarrow>
      get_midpoint code var_name = Inr None) \<and>
   (base_var_name var_name = Inr b \<longrightarrow> binding mappings b = Some tbl \<longrightarrow> c \<notin> fst ` set tbl \<longrightarrow>
      get_midpoint (Some c) var_name = Inr None) \<and>
   (base_var_name var_name = Inr b \<longrightarrow> c < 1 \<or> 15 < c \<longrightarrow>
      get_midpoint (Some c) var_name = Inr None)"
  using get_midpoint_unbound get_midpoint_absent_code get_midpoint_out_of_range
  by (simp add: get_midpoint_def)

text \<open>
  The field \<^verbatim>\<open>zz_1\<close> normalizes to \<^verbatim>\<open>zz\<close>, which no table is bound to; the
  field \<^verbatim>\<open>f4005it\<close> is bound to the table \<open>map18\<close>, which has no bracket \<open>4\<close>;
  the code \<open>0\<close> of \<^verbatim>\<open>c2016it_1\<close> is out of range.
\<close>

theorem get_midpoint_missing_witness:
  "base_var_name ''zz_1'' = Inr ''zz'' \<and> binding mappings ''zz'' = None \<and>
   get_midpoint (Some 1) ''zz_1'' = Inr None \<and>
   base_var_name ''f4005it'' = Inr ''f4005it'' \<and> binding mappings ''f4005it'' = Some map18 \<and>
   4 \<notin> fst ` set map18 \<and> get_midpoint (Some 4) ''f4005it'' = Inr None \<and>
   base_var_name ''c2016it_1'' = Inr ''c2016it'' \<and> (0::real) < 1 \<and>
   get_midpoint (Some 0) ''c2016it_1'' = Inr None \<and>
   get_midpoint None ''c2016it_1'' = Inr None"
proof -
  have a1: "base_var_name ''zz_1'' = Inr ''zz''" by (simp add: base_var_name_def)
  have a2: "binding mappings ''zz'' = None" by (simp add: mappings_def vars_defs)
  have a3: "base_var_name ''f4005it'' = Inr ''f4005it''" by (simp add: base_var_name_def)
  have a4: "binding mappings ''f4005it'' = Some map18" by (simp add: mappings_def vars_defs)
  have a5: "4 \<notin> fst ` set map18" by (simp add: map18_def)
  have a6: "base_var_name ''c2016it_1'' = Inr ''c2016it''" by (simp add: base_var_name_def)
  show ?thesis
    using a1 a2 a3 a4 a5 a6
      get_midpoint_missing [of "''zz_1''" "''zz''" "Some 1" map18 4]
      get_midpoint_missing [of "''f4005it''" "''f4005it''" "Some 1" map18 4]
      get_midpoint_missing [of "''c2016it_1''" "''c2016it''" "Some 1" map18 0]
    by simp
qed

text \<open>
  The normalization itself raises on the one-character name \<^verbatim>\<open>_\<close>, and a bound
  code resolves to the value of its own bracket.
\<close>

lemma base_var_name_underscore: "base_var_name ''_'' = Inl IndexError"
  by (simp add: base_var_name_def)

lemma get_midpoint_top_bracket: "get_midpoint (Some 13) ''c2016it_1'' = Inr (Some 30000000)"
  by (simp add: get_midpoint_def base_var_name_def mappings_def vars_defs map9_def)

section \<open>Proofs: frames and Series\<close>

lemma nrows_set_col [simp]: "nrows (set_col c s df) = nrows df"
  by (simp add: set_col_def)

lemma cols_set_col [simp]: "cols (set_col c s df) = (cols df)(c \<mapsto> s)"
  by (simp add: set_col_def)

lemma get_col_set_col [simp]: "get_col (set_col c s df) c' = (if c' = c then s else get_col df c')"
  by (simp add: get_col_def)

lemma has_col_set_col [simp]: "has_col (set_col c s df) c' = (c' = c \<or> has_col df c')"
  by (simp add: has_col_def)

lemma wf_set_col: "wf df \<Longrightarrow> length s = nrows df \<Longrightarrow> wf (set_col c s df)"
  by (simp add: wf_def)

lemma nrows_set_const [simp]: "nrows (set_const c v df) = nrows df"
  by (simp add: set_const_def)

lemma cols_set_const [simp]: "cols (set_const c v df) = (cols df)(c \<mapsto> replicate (nrows df) v)"
  by (simp add: set_const_def)

lemma get_col_set_const [simp]:
  "get_col (set_const c v df) c' = (if c' = c then replicate (nrows df) v else get_col df c')"
  by (simp add: set_const_def)

lemma has_col_set_const [simp]: "has_col (set_const c v df) c' = (c' = c \<or> has_col df c')"
  by (simp add: set_const_def)

lemma wf_set_const: "wf df \<Longrightarrow> wf (set_const c v df)"
  by (simp add: set_const_def wf_set_col)

lemma wf_get_col: "wf df \<Longrightarrow> has_col df c \<Longrightarrow> length (get_col df c) = nrows df"
  by (auto simp: wf_def has_col_def get_col_def)

lemma mask_select_map: "mask_select (map P s) s = filter P s"
  by (induction s) (auto simp: mask_select_def)

lemma mask_select_map_comp: "mask_select (map (P \<circ> f) s) (map f s) = filter P (map f s)"
  using mask_select_map [of P "map f s"] by simp

lemma set_mask_select: "set (mask_select msk s) \<subseteq> set s"
  by (auto simp: mask_select_def dest: set_zip_rightD)

lemma length_mask_select:
  "length msk = length s \<Longrightarrow> length (mask_select msk s) = length (filter id msk)"
proof (induction msk arbitrary: s)
  case Nil
  then show ?case by (simp add: mask_select_def)
next
  case (Cons m msk)
  then obtain x xs where "s = x # xs" by (cases s) auto
  with Cons show ?case by (simp add: mask_select_def)
qed

lemma nrows_filter_rows: "length msk = nrows df \<Longrightarrow> nrows (filter_rows msk df) = length (filter id msk)"
  by (simp add: filter_rows_def)

lemma has_col_filter_rows [simp]: "has_col (filter_rows msk df) c = has_col df c"
  by (simp add: filter_rows_def has_col_def)

lemma get_col_filter_rows: "get_col (filter_rows msk df) c = mask_select msk (get_col df c)"
  by (simp add: filter_rows_def get_col_def mask_select_def split: option.splits)

lemma wf_filter_rows: "wf df \<Longrightarrow> length msk = nrows df \<Longrightarrow> wf (filter_rows msk df)"
  by (auto simp: wf_def filter_rows_def length_mask_select)

section \<open>Proofs: head-proxy extractor\<close>

lemma head_age_stage3:
  "get_col (heads_stage3 ind_df) ''head_age'' = filter (\<lambda>x. ge_cell x 16) (code1_ages ind_df)"
  by (simp add: heads_stage3_def code1_ages_def Let_def get_col_filter_rows mask_select_map_comp)

lemma wf_stage3:
  assumes "wf ind_df" "has_col ind_df ''a2001''" "has_col ind_df ''a2005''"
  shows "wf (heads_stage3 ind_df)"
    and "nrows (heads_stage3 ind_df) = length (filter (\<lambda>x. ge_cell x 16) (code1_ages ind_df))"
    and "length (code1_ages ind_df) =
         nrows (filter_rows (map (\<lambda>x. eq_cell x 1) (get_col ind_df ''a2001'')) ind_df)"
proof -
  let ?m1 = "map (\<lambda>x. eq_cell x 1) (get_col ind_df ''a2001'')"
  let ?h1 = "filter_rows ?m1 ind_df"
  let ?h2 = "set_col ''head_age'' (map (sub_cell (Some 2017)) (get_col ?h1 ''a2005'')) ?h1"
  let ?m2 = "map (\<lambda>x. ge_cell x 16) (get_col ?h2 ''head_age'')"
  have l1: "length ?m1 = nrows ind_df" using assms by (simp add: wf_get_col)
  then have w1: "wf ?h1" using assms by (simp add: wf_filter_rows)
  have c1: "length (get_col ?h1 ''a2005'') = nrows ?h1"
    using w1 assms by (simp add: wf_get_col)
  then have w2: "wf ?h2" using w1 by (simp add: wf_set_col)
  have l2: "length ?m2 = nrows ?h2" using c1 by simp
  show "wf (heads_stage3 ind_df)"
    using w2 l2 unfolding heads_stage3_def Let_def by (rule wf_filter_rows)
  have "nrows (heads_stage3 ind_df) = length (filter id ?m2)"
    using l2 unfolding heads_stage3_def Let_def by (rule nrows_filter_rows)
  also have "\<dots> = length (filter (\<lambda>x. ge_cell x 16) (code1_ages ind_df))"
    by (simp add: code1_ages_def get_col_filter_rows filter_map comp_def)
  finally show "nrows (heads_stage3 ind_df) =
      length (filter (\<lambda>x. ge_cell x 16) (code1_ages ind_df))" .
  show "length (code1_ages ind_df) = nrows ?h1"
    using c1 by (simp add: code1_ages_def get_col_filter_rows)
qed

lemma extract_heads_Inr:
  assumes "has_col ind_df ''a2001''" "has_col ind_df ''a2005''"
  shows "extract_heads ind_df =
     Inr (let h3 = heads_stage3 ind_df;
              h4 = (if \<not> has_col h3 ''a2028'' then set_const ''a2028'' (Some 0) h3 else h3);
              h5 = (if \<not> has_col h4 ''a2029'' then set_const ''a2029'' (Some 0) h4 else h4);
              h6 = set_col ''head_siblings_raw''
                     (map2 add_cell (fillna 0 (get_col h5 ''a2028''))
                                    (fillna 0 (get_col h5 ''a2029''))) h5
          in set_col ''head_siblings''
               (np_where_nan (map (\<lambda>x. le_cell x 40) (get_col h6 ''head_age''))
                             (get_col h6 ''head_siblings_raw'')) h6,
          int (nrows (filter_rows (map (\<lambda>x. eq_cell x 1) (get_col ind_df ''a2001'')) ind_df))
            - int (nrows (heads_stage3 ind_df)))"
  using assms by (simp add: extract_heads_def heads_stage3_def Let_def)

lemma extract_heads_Exit:
  "\<not> (has_col ind_df ''a2001'' \<and> has_col ind_df ''a2005'') \<Longrightarrow> extract_heads ind_df = Inl Exit"
  by (auto simp: extract_heads_def Let_def)

lemma head_age_ge_16:
  "x \<in> set (filter (\<lambda>x. ge_cell x 16) ages) \<Longrightarrow> \<exists>a. x = Some a \<and> 16 \<le> a"
  by (cases x) auto

lemma extract_heads_head_age:
  assumes "extract_heads ind_df = Inr (heads_df, removed_count)"
  shows "get_col heads_df ''head_age'' = filter (\<lambda>x. ge_cell x 16) (code1_ages ind_df)"
proof -
  have h: "has_col ind_df ''a2001''" "has_col ind_df ''a2005''"
    using assms extract_heads_Exit [of ind_df] by auto
  show ?thesis
    using assms unfolding extract_heads_Inr [OF h]
    by (auto simp: Let_def head_age_stage3)
qed

lemma renamed_col:
  assumes "distinct (map snd kvs)" "(k, v) \<in> set kvs" "P k"
  shows "map_of (map (\<lambda>(k, v). (v, f k)) (filter (\<lambda>(k, v). P k) kvs)) v = Some (f k)"
proof (rule map_of_is_SomeI)
  have "map fst (map (\<lambda>(k, v). (v, f k)) (filter (\<lambda>(k, v). P k) kvs)) =
        map snd (filter (\<lambda>(k, v). P k) kvs)"
    by (induction kvs) auto
  moreover have "distinct (map snd (filter (\<lambda>(k, v). P k) kvs))"
    using assms(1) by (rule distinct_map_filter)
  ultimately show "distinct (map fst (map (\<lambda>(k, v). (v, f k)) (filter (\<lambda>(k, v). P k) kvs)))"
    by (simp only:)
  show "(v, f k) \<in> set (map (\<lambda>(k, v). (v, f k)) (filter (\<lambda>(k, v). P k) kvs))"
    using assms(2,3) by force
qed

lemma head_info_head_age:
  assumes "head_info_to_merge heads_df = Inr info" "has_col heads_df ''head_age''"
  shows "set (get_col info ''head_age'') \<subseteq> set (get_col heads_df ''head_age'')"
proof -
  let ?sel = "filter (has_col heads_df) (map fst head_control_cols_map)"
  let ?ren = "\<lparr>nrows = nrows heads_df,
      cols = map_of (map (\<lambda>(k, v). (v, get_col heads_df k))
               (filter (\<lambda>(k, v). k \<in> set ?sel) head_control_cols_map))\<rparr>"
  have "cols ?ren ''head_age'' = Some (get_col heads_df ''head_age'')"
    unfolding select_convs
    by (rule renamed_col) (use assms(2) in \<open>simp_all add: head_control_cols_map_def\<close>)
  then have g: "get_col ?ren ''head_age'' = get_col heads_df ''head_age''"
    by (simp add: get_col_def)
  from assms(1) have "info = filter_rows (first_occurrence [] (get_col ?ren ''hhid'')) ?ren"
    by (simp add: head_info_to_merge_def Let_def split: if_splits)
  then have "get_col info ''head_age'' =
      mask_select (first_occurrence [] (get_col ?ren ''hhid'')) (get_col heads_df ''head_age'')"
    using g by (simp add: get_col_filter_rows)
  then show ?thesis by (simp add: set_mask_select)
qed

lemma extract_heads_has_head_age:
  assumes "extract_heads ind_df = Inr (heads_df, removed_count)"
  shows "has_col heads_df ''head_age''"
proof -
  have h: "has_col ind_df ''a2001''" "has_col ind_df ''a2005''"
    using assms extract_heads_Exit [of ind_df] by auto
  show ?thesis
    using assms unfolding extract_heads_Inr [OF h]
    by (auto simp: Let_def heads_stage3_def)
qed

text \<open>
  Claim C9. When the individual table has the relationship and birth-year columns, the
  extractor does not stop: it returns \<^verbatim>\<open>heads_df\<close> and the count of removed rows.
  The ages of \<^verbatim>\<open>heads_df\<close> are the computed ages of the individuals with
  relationship code \<open>1\<close> that are at least \<open>16\<close>, so every retained age is a number
  that is at least \<open>16\<close>, in \<^verbatim>\<open>heads_df\<close> and in the frame that is merged into
  the household table; the count is the number of code-1 individuals whose age is
  not at least \<open>16\<close>.
\<close>

theorem head_age_at_least_16:
  assumes "has_col ind_df ''a2001''" and "has_col ind_df ''a2005''"
  shows "\<exists>heads_df removed_count.
     extract_heads ind_df = Inr (heads_df, removed_count) \<and>
     get_col heads_df ''head_age'' = filter (\<lambda>x. ge_cell x 16) (code1_ages ind_df) \<and>
     (\<forall>x \<in> set (get_col heads_df ''head_age''). \<exists>a. x = Some a \<and> 16 \<le> a) \<and>
     (\<forall>info. head_info_to_merge heads_df = Inr info \<longrightarrow>
        (\<forall>x \<in> set (get_col info ''head_age''). \<exists>a. x = Some a \<and> 16 \<le> a)) \<and>
     (wf ind_df \<longrightarrow>
        removed_count = int (length (filter (\<lambda>x. \<not> ge_cell x 16) (code1_ages ind_df))))"
proof -
  obtain heads_df removed_count where
    e: "extract_heads ind_df = Inr (heads_df, removed_count)"
    and r: "removed_count =
      int (nrows (filter_rows (map (\<lambda>x. eq_cell x 1) (get_col ind_df ''a2001'')) ind_df))
        - int (nrows (heads_stage3 ind_df))"
    using extract_heads_Inr [OF assms] by (metis prod.collapse)
  have a: "get_col heads_df ''head_age'' = filter (\<lambda>x. ge_cell x 16) (code1_ages ind_df)"
    using e by (rule extract_heads_head_age)
  have b: "\<forall>x \<in> set (get_col heads_df ''head_age''). \<exists>a. x = Some a \<and> 16 \<le> a"
    unfolding a using head_age_ge_16 by blast
  have c: "\<forall>info. head_info_to_merge heads_df = Inr info \<longrightarrow>
        (\<forall>x \<in> set (get_col info ''head_age''). \<exists>a. x = Some a \<and> 16 \<le> a)"
    using b head_info_head_age extract_heads_has_head_age [OF e] by blast
  have d: "removed_count = int (length (filter (\<lambda>x. \<not> ge_cell x 16) (code1_ages ind_df)))"
    if "wf ind_df"
  proof -
    have "length (code1_ages ind_df) =
        length (filter (\<lambda>x. ge_cell x 16) (code1_ages ind_df)) +
        length (filter (\<lambda>x. \<not> ge_cell x 16) (code1_ages ind_df))"
      by (rule sum_length_filter_compl [symmetric])
    then show ?thesis
      using r wf_stage3(2,3) [OF that assms] by simp
  qed
  show ?thesis using e a b c d by blast
qed

lemma wf_example_ind_df: "wf example_ind_df"
  by (auto simp: wf_def example_ind_df_def split: if_splits)

lemma example_code1_ages: "code1_ages example_ind_df = [Some 37, Some 7, Some 67]"
  by (simp add: code1_ages_def example_ind_df_def get_col_def mask_select_def)

lemma example_has_cols: "has_col example_ind_df ''a2001'' \<and> has_col example_ind_df ''a2005''"
  by (simp add: has_col_def example_ind_df_def)

lemma example_stage3: "heads_stage3 example_ind_df = \<lparr>nrows = 2,
      cols = [''hhid'' \<mapsto> [Some 1, Some 3],
              ''a2001'' \<mapsto> [Some 1, Some 1],
              ''a2005'' \<mapsto> [Some 1980, Some 1950],
              ''a2028'' \<mapsto> [Some 2, Some 3],
              ''head_age'' \<mapsto> [Some 37, Some 67]]\<rparr>"
  by (auto simp: heads_stage3_def example_ind_df_def get_col_def mask_select_def filter_rows_def
       set_col_def Let_def fun_eq_iff)

lemma fillna_nth: "j < length s \<Longrightarrow> fillna 0 s ! j = Some (zero_filled (s ! j))"
  by (simp add: fillna_def zero_filled_def split: option.splits)

lemma length_fillna [simp]: "length (fillna v s) = length s"
  by (simp add: fillna_def)

lemma length_first_occurrence [simp]: "length (first_occurrence seen xs) = length xs"
  by (induction xs arbitrary: seen) auto








lemma replicate_numeral: "replicate (numeral k) x = x # replicate (pred_numeral k) x"
  by (simp add: numeral_eq_Suc)


lemma example_heads:
  "extract_heads example_ind_df = Inr (example_heads_df, 1)"
  "nrows example_heads_df = 2"
  "get_col example_heads_df ''head_age'' = [Some 37, Some 67]"
  "get_col example_heads_df ''a2028'' = [Some 2, Some 3]"
  "get_col example_heads_df ''a2029'' = [Some 0, Some 0]"
  "has_col example_heads_df ''hhid''"
  "get_col example_heads_df ''hhid'' = [Some 1, Some 3]"
  unfolding example_heads_df_def extract_heads_Inr [OF conjunct1 [OF example_has_cols] conjunct2 [OF example_has_cols]]
    example_stage3
  by (simp_all add: Let_def has_col_def get_col_def filter_rows_def example_ind_df_def
      mask_select_def replicate_numeral)

lemma head_info_to_merge_Inr:
  assumes "has_col heads_df ''hhid''"
  shows "\<exists>info. head_info_to_merge heads_df = Inr info"
proof -
  let ?sel = "filter (has_col heads_df) (map fst head_control_cols_map)"
  let ?ren = "\<lparr>nrows = nrows heads_df,
      cols = map_of (map (\<lambda>(k, v). (v, get_col heads_df k))
               (filter (\<lambda>(k, v). k \<in> set ?sel) head_control_cols_map))\<rparr>"
  have "cols ?ren ''hhid'' = Some (get_col heads_df ''hhid'')"
    unfolding select_convs
    by (rule renamed_col) (use assms in \<open>simp_all add: head_control_cols_map_def\<close>)
  then have "has_col ?ren ''hhid''" by (simp add: has_col_def)
  then show ?thesis by (simp add: head_info_to_merge_def Let_def)
qed

theorem head_age_at_least_16_witness:
  "has_col example_ind_df ''a2001'' \<and> has_col example_ind_df ''a2005'' \<and> wf example_ind_df \<and>
   (\<exists>heads_df info. extract_heads example_ind_df = Inr (heads_df, 1) \<and>
      get_col heads_df ''head_age'' = [Some 37, Some 67] \<and>
      head_info_to_merge heads_df = Inr info \<and>
      (\<forall>x \<in> set (get_col info ''head_age''). \<exists>a. x = Some a \<and> 16 \<le> a))"
proof -
  have c: "has_col example_ind_df ''a2001''" "has_col example_ind_df ''a2005''"
    by (simp_all add: has_col_def example_ind_df_def)
  have ages: "code1_ages example_ind_df = [Some 37, Some 7, Some 67]"
    by (simp add: code1_ages_def example_ind_df_def get_col_def mask_select_def)
  obtain heads_df removed_count where
    e: "extract_heads example_ind_df = Inr (heads_df, removed_count)"
    and a: "get_col heads_df ''head_age'' =
            filter (\<lambda>x. ge_cell x 16) (code1_ages example_ind_df)"
    and i: "\<forall>info. head_info_to_merge heads_df = Inr info \<longrightarrow>
        (\<forall>x \<in> set (get_col info ''head_age''). \<exists>a. x = Some a \<and> 16 \<le> a)"
    and r: "wf example_ind_df \<longrightarrow>
        removed_count = int (length (filter (\<lambda>x. \<not> ge_cell x 16) (code1_ages example_ind_df)))"
    using head_age_at_least_16 [OF c] by blast
  have r1: "removed_count = 1" using r wf_example_ind_df ages by simp
  have "heads_df = example_heads_df" using e example_heads(1) by simp
  then obtain info where m: "head_info_to_merge heads_df = Inr info"
    using example_heads(6) head_info_to_merge_Inr by blast
  have a1: "get_col heads_df ''head_age'' = [Some 37, Some 67]" using a ages by simp
  have "extract_heads example_ind_df = Inr (heads_df, 1) \<and>
      get_col heads_df ''head_age'' = [Some 37, Some 67] \<and>
      head_info_to_merge heads_df = Inr info \<and>
      (\<forall>x \<in> set (get_col info ''head_age''). \<exists>a. x = Some a \<and> 16 \<le> a)"
    using e r1 a1 m i by blast
  then show ?thesis using c wf_example_ind_df by blast
qed


section \<open>Proofs: winsorization\<close>

lemma length_assign_at [simp]: "length (assign_at ps v a) = length a"
  unfolding assign_at_def by (induction ps arbitrary: a) auto

lemma nth_assign_at:
  "p < length a \<Longrightarrow> assign_at ps v a ! p = (if p \<in> set ps then v else a ! p)"
  unfolding assign_at_def
proof (induction ps arbitrary: a)
  case Nil
  then show ?case by simp
next
  case (Cons q ps)
  then show ?case by (auto simp: nth_list_update)
qed

lemma argsort_props:
  "length (argsort a) = length a"
  "distinct (argsort a)"
  "set (argsort a) = {0..<length a}"
  "map (\<lambda>i. a ! i) (argsort a) = sort a"
proof -
  show "length (argsort a) = length a" by (simp add: argsort_def)
  show "distinct (argsort a)" by (simp add: argsort_def)
  show "set (argsort a) = {0..<length a}" by (simp add: argsort_def)
  have "mset (map (\<lambda>i. a ! i) (argsort a)) = mset (map (\<lambda>i. a ! i) [0..<length a])"
    by (simp add: argsort_def)
  also have "\<dots> = mset a" by (simp add: map_nth)
  finally have m: "mset (map (\<lambda>i. a ! i) (argsort a)) = mset a" .
  have st: "sorted (map (\<lambda>i. a ! i) (argsort a))" by (simp add: argsort_def)
  show "map (\<lambda>i. a ! i) (argsort a) = sort a"
    using properties_for_sort [OF m st] by simp
qed

lemma nth_in_take:
  assumes "distinct xs" "q < length xs"
  shows "xs ! q \<in> set (take k xs) \<longleftrightarrow> q < k"
proof
  assume "xs ! q \<in> set (take k xs)"
  then obtain i where i: "i < length (take k xs)" "take k xs ! i = xs ! q"
    by (auto simp: in_set_conv_nth)
  then have "xs ! i = xs ! q" "i < length xs" "i < k" by auto
  with assms show "q < k" by (simp add: nth_eq_iff_index_eq)
next
  assume "q < k"
  with assms(2) have "take k xs ! q = xs ! q" "q < length (take k xs)" by auto
  then show "xs ! q \<in> set (take k xs)" by (metis nth_mem)
qed

lemma nth_in_drop:
  assumes "distinct xs" "q < length xs"
  shows "xs ! q \<in> set (drop m xs) \<longleftrightarrow> m \<le> q"
proof
  assume "xs ! q \<in> set (drop m xs)"
  then obtain i where i: "i < length (drop m xs)" "drop m xs ! i = xs ! q"
    by (auto simp: in_set_conv_nth)
  then have "xs ! (m + i) = xs ! q" "m + i < length xs" by auto
  with assms have "m + i = q" by (simp add: nth_eq_iff_index_eq)
  then show "m \<le> q" by simp
next
  assume "m \<le> q"
  with assms(2) have "drop m xs ! (q - m) = xs ! q" "q - m < length (drop m xs)" by auto
  then show "xs ! q \<in> set (drop m xs)" by (metis nth_mem)
qed

lemma winsorize_clip:
  assumes "a \<noteq> []"
  shows "winsorize a =
     Inr (map (clip (sort a ! (length a div 100))
                    (sort a ! (length a - length a div 100 - 1))) a)"
proof -
  define n where "n = length a"
  define k where "k = n div 100"
  define idx where "idx = argsort a"
  define s where "s = sort a"
  define lo where "lo = s ! k"
  define hi where "hi = s ! (n - k - 1)"
  have n: "0 < n" using assms by (simp add: n_def)
  have k: "k < n" "k \<le> n - k - 1" "n - k - 1 < n" using n by (auto simp: k_def)
  have li: "length idx = n" and di: "distinct idx" and si: "set idx = {0..<n}"
    and mi: "map (\<lambda>i. a ! i) idx = s"
    by (simp_all add: idx_def n_def s_def argsort_props)
  have ai: "a ! (idx ! q) = s ! q" if "q < n" for q
    using that li mi by (metis nth_map)
  have ss: "s ! i \<le> s ! j" if "i \<le> j" "j < n" for i j
    using that by (simp add: s_def n_def sorted_nth_mono)
  have lohi: "lo \<le> hi" unfolding lo_def hi_def using k by (intro ss) auto
  define a1 where "a1 = assign_at (take k idx) (a ! (idx ! k)) a"
  define a2 where "a2 = assign_at (drop (n - k) idx) (a1 ! (idx ! (n - k - 1))) a1"
  have w: "winsorize a = Inr a2"
    using assms by (simp add: winsorize_def Let_def a2_def a1_def idx_def n_def k_def)
  have in_n: "idx ! q < n" if "q < n" for q
    using that li si by (metis atLeastLessThan_iff nth_mem)
  have a1q: "a1 ! (idx ! q) = (if q < k then lo else s ! q)" if "q < n" for q
    using that in_n [OF that] di li k
    by (simp add: a1_def nth_assign_at n_def [symmetric] nth_in_take ai lo_def)
  have hi': "a1 ! (idx ! (n - k - 1)) = hi"
    using a1q [OF k(3)] k by (simp add: hi_def)
  have a2q: "a2 ! (idx ! q) = clip lo hi (s ! q)" if "q < n" for q
  proof -
    have "idx ! q < length a1" using in_n [OF that] by (simp add: a1_def n_def)
    then have "a2 ! (idx ! q) =
        (if idx ! q \<in> set (drop (n - k) idx) then hi else a1 ! (idx ! q))"
      unfolding a2_def hi' by (rule nth_assign_at)
    also have "idx ! q \<in> set (drop (n - k) idx) \<longleftrightarrow> n - k \<le> q"
      using di that li by (simp add: nth_in_drop)
    finally have "a2 ! (idx ! q) = (if n - k \<le> q then hi else a1 ! (idx ! q))" .
    also have "(if n - k \<le> q then hi else a1 ! (idx ! q)) = clip lo hi (s ! q)"
    proof (cases "n - k \<le> q")
      case True
      then have "hi \<le> s ! q" unfolding hi_def using that by (intro ss) auto
      with True lohi show ?thesis by (simp add: clip_def)
    next
      case False
      show ?thesis
      proof (cases "q < k")
        case True
        then have "s ! q \<le> lo" unfolding lo_def using k by (intro ss) auto
        with True False lohi a1q [OF that] show ?thesis by (simp add: clip_def)
      next
        case nk: False
        have "lo \<le> s ! q" unfolding lo_def using nk that by (intro ss) auto
        moreover have "s ! q \<le> hi" unfolding hi_def using False k by (intro ss) auto
        ultimately show ?thesis using False nk a1q [OF that] by (simp add: clip_def)
      qed
    qed
    finally show ?thesis .
  qed
  have "a2 = map (clip lo hi) a"
  proof (rule nth_equalityI)
    show "length a2 = length (map (clip lo hi) a)" by (simp add: a2_def a1_def)
    fix p assume "p < length a2"
    then have p: "p < n" by (simp add: a2_def a1_def n_def)
    then have "p \<in> set idx" using si by simp
    then obtain q where q: "q < n" "idx ! q = p" using li by (auto simp: in_set_conv_nth)
    then show "a2 ! p = map (clip lo hi) a ! p"
      using a2q [OF q(1)] ai [OF q(1)] p by (simp add: n_def)
  qed
  then show ?thesis using w by (simp add: lo_def hi_def s_def k_def n_def)
qed

lemma sort_map_mono:
  assumes "mono f"
  shows "sort (map f xs) = map f (sort xs)"
proof (rule properties_for_sort)
  show "mset (map f (sort xs)) = mset (map f xs)" by simp
  have "sorted_wrt (\<lambda>x y. f x \<le> f y) (sort xs)"
    by (rule sorted_wrt_mono_rel [of _ "(\<le>)"]) (use assms in \<open>auto dest: monoD\<close>)
  then show "sorted (map f (sort xs))" by (simp add: sorted_map)
qed

lemma mono_clip: "mono (clip lo hi)"
  by (auto simp: mono_def clip_def min_def max_def)

lemma clip_clip: "clip lo hi (clip lo hi x) = clip lo hi x"
  by (auto simp: clip_def min_def max_def)

lemma length_winsorize: "winsorize a = Inr w \<Longrightarrow> length w = length a"
  by (auto simp: winsorize_def Let_def split: if_splits)

lemma winsorize_idem:
  assumes "winsorize a = Inr w"
  shows "winsorize w = Inr w"
proof -
  have ne: "a \<noteq> []" using assms by (auto simp: winsorize_def)
  define n where "n = length a"
  define k where "k = n div 100"
  define lo where "lo = sort a ! k"
  define hi where "hi = sort a ! (n - k - 1)"
  have n: "0 < n" using ne by (simp add: n_def)
  have k: "k < n" "k \<le> n - k - 1" "n - k - 1 < n" using n by (auto simp: k_def)
  have lohi: "lo \<le> hi" unfolding lo_def hi_def using k
    by (intro sorted_nth_mono) (auto simp: n_def)
  have w: "w = map (clip lo hi) a"
    using assms winsorize_clip [OF ne] by (simp add: lo_def hi_def k_def n_def)
  have wne: "w \<noteq> []" using ne w by simp
  have sw: "sort w = map (clip lo hi) (sort a)"
    unfolding w by (rule sort_map_mono [OF mono_clip])
  have "sort w ! k = clip lo hi lo" using k by (simp add: sw lo_def n_def)
  then have l: "sort w ! k = lo" using lohi by (simp add: clip_def)
  have "sort w ! (n - k - 1) = clip lo hi hi" using k by (simp add: sw hi_def n_def)
  then have h: "sort w ! (n - k - 1) = hi" using lohi by (simp add: clip_def)
  have lw: "length w = n" by (simp add: w n_def)
  have "winsorize w = Inr (map (clip lo hi) w)"
    using winsorize_clip [OF wne] l h by (simp add: lw k_def)
  also have "map (clip lo hi) w = w" by (simp add: w clip_clip)
  finally show ?thesis .
qed

lemma winsorize_total: "a \<noteq> [] \<Longrightarrow> \<exists>w. winsorize a = Inr w"
  by (simp add: winsorize_def Let_def)

lemma dropna_reinsert: "length ws = length (dropna s) \<Longrightarrow> dropna (reinsert s ws) = ws"
  by (induction s ws rule: reinsert.induct) auto

lemma reinsert_reinsert:
  "length ws = length (dropna s) \<Longrightarrow> reinsert (reinsert s ws) ws' = reinsert s ws'"
  by (induction s ws arbitrary: ws' rule: reinsert.induct) (auto, case_tac ws', auto)

lemma dropna_replicate_None [simp]: "dropna (replicate n None) = []"
  by (induction n) auto

text \<open>
  Claim C8. Winsorizing a column never fails, and winsorizing the winsorized column
  again, with the order statistics taken anew from its values that are not missing,
  gives the same column: the same values in the same rows, missing where it was
  missing. The script winsorizes \<^verbatim>\<open>debt_ratio\<close> into
  \<^verbatim>\<open>debt_ratio_winsorized\<close>.
\<close>

theorem winsorize_col_idempotent:
  "\<exists>df1 df2. winsorize_col src dst hh_df = Inr df1 \<and> winsorize_col dst dst' df1 = Inr df2 \<and>
     get_col df2 dst' = get_col df1 dst"
proof (cases "dropna (get_col hh_df src) = []")
  case True
  then show ?thesis by (simp add: winsorize_col_def Let_def)
next
  case False
  then obtain w where w: "winsorize (dropna (get_col hh_df src)) = Inr w"
    using winsorize_total by blast
  have lw: "length w = length (dropna (get_col hh_df src))" using w by (rule length_winsorize)
  have wne: "w \<noteq> []" using False lw by auto
  let ?c = "reinsert (get_col hh_df src) w"
  have 1: "winsorize_col src dst hh_df = Inr (set_col dst ?c hh_df)"
    using False w by (simp add: winsorize_col_def Let_def)
  have d: "dropna ?c = w" using lw by (rule dropna_reinsert)
  have 2: "winsorize_col dst dst' (set_col dst ?c hh_df) =
           Inr (set_col dst' (reinsert ?c w) (set_col dst ?c hh_df))"
    using wne d winsorize_idem [OF w] by (simp add: winsorize_col_def Let_def)
  have "reinsert ?c w = ?c" using lw by (rule reinsert_reinsert)
  then show ?thesis using 1 2 by simp
qed

section \<open>Proofs: field coalescer\<close>

lemma name_ok_base: "name_ok v \<Longrightarrow> \<exists>b. base_var_name v = Inr b"
  by (auto simp: name_ok_def base_var_name_def)

lemma base_var_name_defined:
  "var_name \<noteq> ''_'' \<Longrightarrow> \<exists>b. base_var_name var_name = Inr b"
proof -
  assume a: "var_name \<noteq> ''_''"
  have "name_ok var_name"
  proof (cases var_name)
    case Nil
    then show ?thesis by (simp add: name_ok_def)
  next
    case (Cons x xs)
    with a show ?thesis by (cases xs) (auto simp: name_ok_def)
  qed
  then show ?thesis by (rule name_ok_base)
qed

lemma get_midpoint_ok: "name_ok v \<Longrightarrow> get_midpoint x v = Inr (midpoint_of v x)"
  using name_ok_base [of v]
  by (auto simp: midpoint_of_def get_midpoint_def split: option.splits)

lemma series_apply_midpoint:
  "name_ok v \<Longrightarrow> series_apply (\<lambda>x. get_midpoint x v) s = Inr (map (midpoint_of v) s)"
  by (induction s) (simp_all add: get_midpoint_ok)

lemma length_combine_first [simp]:
  "length (combine_first s t) = min (length s) (length t)"
  by (simp add: combine_first_def)

lemma nth_combine_first:
  "j < length s \<Longrightarrow> j < length t \<Longrightarrow>
   combine_first s t ! j = (case s ! j of Some v \<Rightarrow> Some v | None \<Rightarrow> t ! j)"
  by (simp add: combine_first_def)

lemma synthesize_props:
  "synthesize vs (df, n) = (df', n') \<Longrightarrow>
   nrows df' = nrows df \<and>
   (\<forall>c. cols df' c =
      (if has_col df c then cols df c
       else if c \<in> set vs then Some (replicate (nrows df) None) else None)) \<and>
   (distinct vs \<longrightarrow> n' = n + length (filter (\<lambda>c. \<not> has_col df c) vs))"
proof (induction vs arbitrary: df n)
  case Nil
  then show ?case by (auto simp: has_col_def)
next
  case (Cons v vs)
  show ?case
  proof (cases "has_col df v")
    case True
    with Cons.prems have "synthesize vs (df, n) = (df', n')" by simp
    from Cons.IH [OF this] True show ?thesis by auto
  next
    case False
    with Cons.prems have "synthesize vs (set_const v None df, n + 1) = (df', n')" by simp
    from Cons.IH [OF this] have
      r: "nrows df' = nrows df"
      and c: "\<And>c. cols df' c =
        (if has_col (set_const v None df) c then cols (set_const v None df) c
         else if c \<in> set vs then Some (replicate (nrows df) None) else None)"
      and k: "distinct vs \<longrightarrow>
        n' = n + 1 + length (filter (\<lambda>c. \<not> has_col (set_const v None df) c) vs)"
      by simp_all
    have c': "cols df' c =
        (if has_col df c then cols df c
         else if c \<in> set (v # vs) then Some (replicate (nrows df) None) else None)" for c
      unfolding c using False by (auto simp: has_col_def)
    have k': "n' = n + length (filter (\<lambda>c. \<not> has_col df c) (v # vs))" if "distinct (v # vs)"
    proof -
      have "filter (\<lambda>c. \<not> has_col (set_const v None df) c) vs =
            filter (\<lambda>c. \<not> has_col df c) vs"
        using that by (intro filter_cong) auto
      then show ?thesis using k that False by simp
    qed
    show ?thesis using r c' k' by blast
  qed
qed

lemma wf_synthesize: "wf df \<Longrightarrow> synthesize vs (df, n) = (df', n') \<Longrightarrow> wf df'"
proof (induction vs arbitrary: df n)
  case Nil
  then show ?case by simp
next
  case (Cons v vs)
  show ?case
  proof (cases "has_col df v")
    case True
    with Cons.prems have "synthesize vs (df, n) = (df', n')" by simp
    with Cons.IH Cons.prems(1) show ?thesis by blast
  next
    case False
    with Cons.prems have "synthesize vs (set_const v None df, n + 1) = (df', n')" by simp
    with Cons.IH wf_set_const [OF Cons.prems(1)] show ?thesis by blast
  qed
qed

lemma coalesce_step_ok:
  assumes "i < length interval_vars \<longrightarrow> name_ok (interval_vars ! i)"
  shows "coalesce_step exact_vars interval_vars i (df, acc) =
     Inr (set_col (exact_vars ! i @ ''_val'')
            (coalesced_column df (exact_vars ! i) (paired interval_vars i)) df,
          acc @ (if has_col df (exact_vars ! i) then [exact_vars ! i @ ''_val''] else []))"
  using assms
  by (simp add: coalesce_step_def coalesced_column_def paired_def Let_def set_const_def
      series_apply_midpoint)

lemma coalesce_loop_append:
  "coalesce_loop ex iv (is @ js) st =
     (case coalesce_loop ex iv is st of Inl e \<Rightarrow> Inl e | Inr st' \<Rightarrow> coalesce_loop ex iv js st')"
  by (induction "is" arbitrary: st) (auto split: sum.splits)

lemma coalesced_column_cong:
  assumes "nrows df' = nrows df" "cols df' exact = cols df exact"
    "\<And>iv. interval = Some iv \<Longrightarrow> cols df' iv = cols df iv"
  shows "coalesced_column df' exact interval = coalesced_column df exact interval"
  using assms by (cases interval) (simp_all add: coalesced_column_def has_col_def get_col_def)

lemma length_coalesced_column:
  assumes "wf df"
  shows "length (coalesced_column df exact interval) = nrows df"
  using assms by (auto simp: coalesced_column_def wf_get_col split: option.splits)

lemma not_val_last: "last x \<noteq> CHR ''l'' \<Longrightarrow> not_val x"
  by (auto simp: not_val_def)

lemma coalesce_loop_inv:
  assumes d: "distinct ex" and nv: "\<forall>x \<in> set ex \<union> set iv. not_val x"
    and ok: "\<forall>v \<in> set iv. name_ok v" and k: "k \<le> length ex"
  shows "\<exists>dfk. coalesce_loop ex iv [0..<k] (df, []) =
        Inr (dfk, map (\<lambda>e. e @ ''_val'') (filter (has_col df) (take k ex))) \<and>
     nrows dfk = nrows df \<and>
     (\<forall>c. (\<forall>i<k. c \<noteq> ex ! i @ ''_val'') \<longrightarrow> cols dfk c = cols df c) \<and>
     (\<forall>i<k. cols dfk (ex ! i @ ''_val'') = Some (coalesced_column df (ex ! i) (paired iv i)))"
  using k
proof (induction k)
  case 0
  then show ?case by simp
next
  case (Suc k)
  then have kl: "k < length ex" by simp
  from Suc obtain dfk where
    l: "coalesce_loop ex iv [0..<k] (df, []) =
        Inr (dfk, map (\<lambda>e. e @ ''_val'') (filter (has_col df) (take k ex)))"
    and r: "nrows dfk = nrows df"
    and o: "\<And>c. (\<forall>i<k. c \<noteq> ex ! i @ ''_val'') \<Longrightarrow> cols dfk c = cols df c"
    and v: "\<And>i. i < k \<Longrightarrow>
        cols dfk (ex ! i @ ''_val'') = Some (coalesced_column df (ex ! i) (paired iv i))"
    by auto
  have nk: "not_val (ex ! k)" using nv kl by simp
  then have ek: "cols dfk (ex ! k) = cols df (ex ! k)"
    by (intro o) (auto simp: not_val_def)
  have ik: "cols dfk v' = cols df v'" if "paired iv k = Some v'" for v'
  proof -
    from that have "v' \<in> set iv" by (auto simp: paired_def split: if_splits)
    with nv have "not_val v'" by simp
    then show ?thesis by (intro o) (auto simp: not_val_def)
  qed
  have cc: "coalesced_column dfk (ex ! k) (paired iv k) =
            coalesced_column df (ex ! k) (paired iv k)"
    using r ek ik by (rule coalesced_column_cong)
  have hk: "has_col dfk (ex ! k) = has_col df (ex ! k)" using ek by (simp add: has_col_def)
  have okk: "k < length iv \<longrightarrow> name_ok (iv ! k)" using ok by simp
  let ?new = "set_col (ex ! k @ ''_val'') (coalesced_column df (ex ! k) (paired iv k)) dfk"
  have "coalesce_loop ex iv [0..<Suc k] (df, []) =
        Inr (?new, map (\<lambda>e. e @ ''_val'') (filter (has_col df) (take (Suc k) ex)))"
    using l kl by (simp add: coalesce_loop_append coalesce_step_ok [OF okk] cc hk
        take_Suc_conv_app_nth)
  moreover have "nrows ?new = nrows df" using r by simp
  moreover have "\<forall>c. (\<forall>i<Suc k. c \<noteq> ex ! i @ ''_val'') \<longrightarrow> cols ?new c = cols df c"
    using o by (auto simp: less_Suc_eq)
  moreover have "\<forall>i<Suc k. cols ?new (ex ! i @ ''_val'') =
        Some (coalesced_column df (ex ! i) (paired iv i))"
  proof (intro allI impI)
    fix i assume "i < Suc k"
    then consider "i = k" | "i < k" by linarith
    then show "cols ?new (ex ! i @ ''_val'') =
        Some (coalesced_column df (ex ! i) (paired iv i))"
    proof cases
      case 1
      then show ?thesis by simp
    next
      case 2
      then have "ex ! i \<noteq> ex ! k" using d kl by (simp add: nth_eq_iff_index_eq)
      then show ?thesis using v [OF 2] by simp
    qed
  qed
  ultimately show ?case by blast
qed

lemma coalesce_result:
  assumes "distinct ex" and "\<forall>x \<in> set ex \<union> set iv. not_val x" and "\<forall>v \<in> set iv. name_ok v"
  shows "\<exists>df'. coalesce ex iv df =
        Inr (df', map (\<lambda>e. e @ ''_val'') (filter (has_col df) ex)) \<and>
     nrows df' = nrows df \<and>
     (\<forall>c. (\<forall>i<length ex. c \<noteq> ex ! i @ ''_val'') \<longrightarrow> cols df' c = cols df c) \<and>
     (\<forall>i<length ex. cols df' (ex ! i @ ''_val'') =
        Some (coalesced_column df (ex ! i) (paired iv i)))"
  using coalesce_loop_inv [OF assms, of "length ex" df] by (simp add: coalesce_def)

lemma wf_coalesce_result:
  assumes "wf df" "nrows df' = nrows df"
    "\<forall>c. (\<forall>i<length ex. c \<noteq> ex ! i @ ''_val'') \<longrightarrow> cols df' c = cols df c"
    "\<forall>i<length ex. cols df' (ex ! i @ ''_val'') =
        Some (coalesced_column df0 (ex ! i) (paired iv i))"
    "wf df0" "nrows df0 = nrows df"
  shows "wf df'"
  unfolding wf_def
proof (intro allI impI)
  fix c s assume cs: "cols df' c = Some s"
  show "length s = nrows df'"
  proof (cases "\<forall>i<length ex. c \<noteq> ex ! i @ ''_val''")
    case True
    with assms(3) cs have "cols df c = Some s" by simp
    with assms(1,2) show ?thesis by (simp add: wf_def)
  next
    case False
    then obtain i where "i < length ex" "c = ex ! i @ ''_val''" by blast
    with assms(4) cs have "s = coalesced_column df0 (ex ! i) (paired iv i)" by simp
    then show ?thesis using length_coalesced_column [OF assms(5)] assms(2,6) by simp
  qed
qed

section \<open>Proofs: the catalog\<close>

lemmas catalog_defs = debt_bus_bank_def debt_bus_private_def debt_bus_private_it_def
  debt_house_bank_def debt_house_bank_it_def debt_house_other_def debt_house_other_it_def
  debt_house_agg_other_def debt_house_agg_other_it_def debt_house_collateral_def
  debt_house_collateral_it_def debt_shop_bank_def debt_shop_bank_it_def debt_shop_other_def
  debt_shop_other_it_def debt_car_def debt_car_it_def debt_vehicle_other_def
  debt_vehicle_other_it_def debt_durable_def debt_durable_it_def debt_stock_def
  debt_finance_other_def debt_finance_other_it_def debt_edu_bank_def debt_edu_bank_it_def
  debt_edu_private_def debt_edu_private_it_def debt_medical_def debt_medical_it_def
  debt_other_def debt_other_it_def all_debt_exact_vars_def all_debt_interval_vars_def
  asset_bus_def asset_bus_it_def asset_house_def asset_house_it_def
  asset_house_agg_other_def asset_house_agg_other_it_def asset_shop_def asset_shop_it_def
  asset_car_def asset_car_it_def asset_vehicle_comm_def asset_vehicle_other_def
  vehicle_in_business_col_def vehicle_in_business_col_it_def asset_durable_def
  asset_other_nonfin_def asset_deposit_checking_def asset_deposit_checking_it_def
  asset_deposit_savings_def asset_deposit_savings_it_def asset_stock_cash_def
  asset_stock_cash_it_def asset_stock_value_def asset_stock_value_it_def
  asset_stock_nonpublic_def asset_stock_nonpublic_it_def asset_fund_def asset_fund_it_def
  asset_internet_finance_def asset_internet_finance_it_def asset_other_finance_prod_def
  asset_other_finance_prod_it_def asset_bond_def asset_bond_it_def asset_derivative_def
  asset_derivative_it_def asset_non_rmb_def asset_non_rmb_it_def asset_gold_def
  asset_gold_it_def asset_other_fin_def asset_other_fin_it_def asset_cash_def
  asset_cash_it_def asset_receivable_def asset_receivable_it_def all_asset_exact_vars_def
  all_asset_interval_vars_def

lemma all_debt_exact_vars_eq:
  "all_debt_exact_vars =
     [''b3005b_2'', ''b3031a_2'', ''c2064_1'', ''c2064_2'', ''c2064_3'', ''c2064_4'', ''c2064_5'',
      ''c2064_6'', ''c3002a_1'', ''c3002a_2'', ''c3002a_3'', ''c3002a_4'', ''c3002a_5'',
      ''c3002a_6'', ''c2023e'', ''c3017ca'', ''c3019c'', ''c3019e'', ''c7060'', ''c7061'',
      ''c8007'', ''d3116b'', ''d9108'', ''e1006'', ''e1022'', ''e4003'', ''e3003c'']"
  by (simp add: catalog_defs)

lemma all_debt_interval_vars_eq:
  "all_debt_interval_vars =
     [''b3031ait_2'', ''c2064it_1'', ''c2064it_2'', ''c2064it_3'', ''c2064it_4'', ''c2064it_5'',
      ''c2064it_6'', ''c3002ait_1'', ''c3002ait_2'', ''c3002ait_3'', ''c3002ait_4'',
      ''c3002ait_5'', ''c3002ait_6'', ''c2023eit'', ''c3017cait'', ''c3019cit'', ''c3019eit'',
      ''c7060it'', ''c7061it'', ''c8007it'', ''d9108it'', ''e1006it'', ''e1022it'', ''e4003it'',
      ''e3003cit'']"
  by (simp add: catalog_defs)

lemma all_asset_exact_vars_eq:
  "all_asset_exact_vars =
     [''b2003d'', ''c2016_1'', ''c2016_2'', ''c2016_3'', ''c2016_4'', ''c2016_5'', ''c2016_6'',
      ''c2023d'', ''c3019a'', ''c7052b'', ''c7059'', ''c7058'', ''c8002'', ''c8005'', ''d1105'',
      ''d2104'', ''d3103'', ''d3109'', ''d3116'', ''d5107'', ''d7106h'', ''d7110a'', ''d4103_1'',
      ''d4103_2'', ''d4103_3'', ''d4103_4'', ''d4103_5'', ''d6100a'', ''d8104'', ''d9103'',
      ''d9110a'', ''k1101'', ''k2102c'']"
  by (simp add: catalog_defs)

lemma all_asset_interval_vars_eq:
  "all_asset_interval_vars =
     [''b2003dit'', ''c2016it_1'', ''c2016it_2'', ''c2016it_3'', ''c2016it_4'', ''c2016it_5'',
      ''c2016it_6'', ''c2023dit'', ''c3019ait'', ''c7052bit'', ''d1105it'', ''d2104it'',
      ''d3103it'', ''d3109it'', ''d3116it'', ''d5107it'', ''d7106hit'', ''d7110ait'',
      ''d4103it_1'', ''d4103it_2'', ''d4103it_3'', ''d4103it_4'', ''d4103it_5'', ''d6100ait'',
      ''d8104it'', ''d9103it'', ''d9110ait'', ''k1101it'', ''k2102cit'']"
  by (simp add: catalog_defs)

lemmas catalog_eqs = all_debt_exact_vars_eq all_debt_interval_vars_eq
  all_asset_exact_vars_eq all_asset_interval_vars_eq

lemma catalog_distinct: "distinct all_debt_exact_vars" "distinct all_asset_exact_vars"
  by (simp_all add: catalog_eqs)

lemma catalog_disjoint: "set all_debt_exact_vars \<inter> set all_asset_exact_vars = {}"
  by (simp add: catalog_eqs)

lemma catalog_last:
  "\<forall>x \<in> set all_debt_exact_vars \<union> set all_debt_interval_vars. last x \<noteq> CHR ''l''"
  "\<forall>x \<in> set all_asset_exact_vars \<union> set all_asset_interval_vars. last x \<noteq> CHR ''l''"
  by (simp_all add: catalog_eqs)

lemma catalog_not_val:
  "\<forall>x \<in> set all_debt_exact_vars \<union> set all_debt_interval_vars. not_val x"
  "\<forall>x \<in> set all_asset_exact_vars \<union> set all_asset_interval_vars. not_val x"
  using catalog_last not_val_last by blast+

lemma catalog_name_ok:
  "\<forall>v \<in> set all_debt_interval_vars. name_ok v"
  "\<forall>v \<in> set all_asset_interval_vars. name_ok v"
  by (simp_all add: catalog_eqs name_ok_def)

lemma vehicle_names:
  "vehicle_in_business_col \<notin> set all_debt_exact_vars \<union> set all_asset_exact_vars"
  "name_ok vehicle_in_business_col_it"
  "not_val vehicle_in_business_col" "not_val vehicle_in_business_col_it"
  by (simp_all add: catalog_eqs vehicle_in_business_col_def vehicle_in_business_col_it_def
      name_ok_def not_val_last)

lemma set_all_vars_needed:
  "set all_vars_needed =
     set all_debt_exact_vars \<union> set all_debt_interval_vars \<union>
     set all_asset_exact_vars \<union> set all_asset_interval_vars \<union>
     {vehicle_in_business_col, vehicle_in_business_col_it}"
  by (auto simp: all_vars_needed_def)

lemma distinct_all_vars_needed: "distinct all_vars_needed"
  by (simp add: all_vars_needed_def)

section \<open>Proofs: household aggregator\<close>

lemma vehicle_adjust_result:
  "vehicle_adjust df = Inr (set_col vehicle_adj_val_col (vehicle_column df) df)"
  using vehicle_names(2)
  by (simp add: vehicle_adjust_def vehicle_column_def series_apply_midpoint set_const_def)

lemma length_vehicle_column: "wf df \<Longrightarrow> length (vehicle_column df) = nrows df"
  by (simp add: vehicle_column_def wf_get_col)

lemma map2_add_cell_Some:
  "length r = length s \<Longrightarrow>
   map2 add_cell (map Some r) (fillna 0 s) = map Some (map2 (+) r (map zero_filled s))"
proof (induction r s rule: list_induct2)
  case Nil
  then show ?case by (simp add: fillna_def)
next
  case (Cons x xs y ys)
  then show ?case by (cases y) (simp_all add: fillna_def zero_filled_def)
qed

lemma foldl_add_cell:
  "length r = n \<Longrightarrow> \<forall>s \<in> set ss. length s = n \<Longrightarrow>
   foldl (map2 add_cell) (map Some r) (map (fillna 0) ss) =
   map (\<lambda>j. Some (r ! j + (\<Sum>s\<leftarrow>ss. zero_filled (s ! j)))) [0..<n]"
proof (induction ss arbitrary: r)
  case Nil
  then show ?case by (auto intro: nth_equalityI)
next
  case (Cons s ss)
  let ?r = "map2 (+) r (map zero_filled s)"
  have l: "length ?r = n" using Cons.prems by simp
  have "foldl (map2 add_cell) (map Some r) (map (fillna 0) (s # ss)) =
        foldl (map2 add_cell) (map Some ?r) (map (fillna 0) ss)"
    using Cons.prems by (simp add: map2_add_cell_Some)
  also have "\<dots> = map (\<lambda>j. Some (?r ! j + (\<Sum>s\<leftarrow>ss. zero_filled (s ! j)))) [0..<n]"
    using l Cons.prems(2) by (intro Cons.IH) auto
  also have "\<dots> = map (\<lambda>j. Some (r ! j + (\<Sum>s\<leftarrow>s # ss. zero_filled (s ! j)))) [0..<n]"
    using Cons.prems by (intro map_cong) (auto simp: add.assoc)
  finally show ?case .
qed

lemma sum_axis1_eq:
  assumes "\<forall>s \<in> set ss. length s = n"
  shows "sum_axis1 n ss = map (\<lambda>j. Some (\<Sum>s\<leftarrow>ss. zero_filled (s ! j))) [0..<n]"
proof -
  have "replicate n (Some (0::real)) = map Some (replicate n 0)" by simp
  then have "sum_axis1 n ss =
      foldl (map2 add_cell) (map Some (replicate n 0)) (map (fillna 0) ss)"
    by (simp only: sum_axis1_def)
  also have "\<dots> = map (\<lambda>j. Some (replicate n 0 ! j + (\<Sum>s\<leftarrow>ss. zero_filled (s ! j)))) [0..<n]"
    using assms by (intro foldl_add_cell) auto
  also have "\<dots> = map (\<lambda>j. Some (\<Sum>s\<leftarrow>ss. zero_filled (s ! j))) [0..<n]"
    by (intro map_cong) auto
  finally show ?thesis .
qed

lemma totals_props:
  assumes "''total_debt'' \<notin> set av"
  shows "nrows (totals dv av df) = nrows df"
    and "get_col (totals dv av df) ''total_debt'' =
         sum_axis1 (nrows df) (map (get_col df) (filter (has_col df) dv))"
    and "get_col (totals dv av df) ''total_assets_raw'' =
         sum_axis1 (nrows df) (map (get_col df) (filter (has_col df) av))"
    and "get_col (totals dv av df) ''total_assets'' =
         map py_max0 (map2 sub_cell
           (sum_axis1 (nrows df) (map (get_col df) (filter (has_col df) av)))
           (if has_col df vehicle_adj_val_col then fillna 0 (get_col df vehicle_adj_val_col)
            else replicate (nrows df) (Some 0)))"
    and "c \<notin> {''total_debt'', ''total_assets_raw'', ''total_assets''} \<Longrightarrow>
         cols (totals dv av df) c = cols df c"
proof -
  have m: "map (get_col (set_col ''total_debt'' x df)) (filter (has_col df) av) =
           map (get_col df) (filter (has_col df) av)" for x
    using assms by (intro map_cong) auto
  have v: "vehicle_adj_val_col \<noteq> ''total_debt''" "vehicle_adj_val_col \<noteq> ''total_assets_raw''"
    by (simp_all add: vehicle_adj_val_col_def vehicle_in_business_col_def)
  show "nrows (totals dv av df) = nrows df" by (simp add: totals_def Let_def)
  show "get_col (totals dv av df) ''total_debt'' =
         sum_axis1 (nrows df) (map (get_col df) (filter (has_col df) dv))"
    by (simp add: totals_def Let_def)
  show "get_col (totals dv av df) ''total_assets_raw'' =
         sum_axis1 (nrows df) (map (get_col df) (filter (has_col df) av))"
    by (simp add: totals_def Let_def m)
  show "get_col (totals dv av df) ''total_assets'' =
         map py_max0 (map2 sub_cell
           (sum_axis1 (nrows df) (map (get_col df) (filter (has_col df) av)))
           (if has_col df vehicle_adj_val_col then fillna 0 (get_col df vehicle_adj_val_col)
            else replicate (nrows df) (Some 0)))"
    using v by (simp add: totals_def Let_def m)
  show "cols (totals dv av df) c = cols df c"
    if "c \<notin> {''total_debt'', ''total_assets_raw'', ''total_assets''}"
    using that by (simp add: totals_def Let_def)
qed

lemma add_debt_ratio_props:
  "nrows (add_debt_ratio df) = nrows df"
  "c \<noteq> ''debt_ratio'' \<Longrightarrow> cols (add_debt_ratio df) c = cols df c"
  "length (get_col df ''total_debt'') = n \<Longrightarrow> length (get_col df ''total_assets'') = n \<Longrightarrow>
   get_col (add_debt_ratio df) ''debt_ratio'' =
   map2 debt_ratio_cell (get_col df ''total_debt'') (get_col df ''total_assets'')"
proof -
  show "nrows (add_debt_ratio df) = nrows df" by (simp add: add_debt_ratio_def Let_def)
  show "cols (add_debt_ratio df) c = cols df c" if "c \<noteq> ''debt_ratio''"
    using that by (simp add: add_debt_ratio_def Let_def)
  show "get_col (add_debt_ratio df) ''debt_ratio'' =
   map2 debt_ratio_cell (get_col df ''total_debt'') (get_col df ''total_assets'')"
    if "length (get_col df ''total_debt'') = n" "length (get_col df ''total_assets'') = n"
    using that
    by (intro nth_equalityI)
       (auto simp: add_debt_ratio_def Let_def loc_assign_def debt_ratio_cell_def)
qed

lemma winsorize_col_props:
  assumes "winsorize_col src dst df = Inr df'"
  shows "nrows df' = nrows df" and "c \<noteq> dst \<Longrightarrow> cols df' c = cols df c"
  using assms by (auto simp: winsorize_col_def Let_def split: if_splits sum.splits)

lemma winsorize_col_total: "\<exists>df'. winsorize_col src dst df = Inr df'"
proof (cases "dropna (get_col df src) = []")
  case True
  then show ?thesis by (simp add: winsorize_col_def)
next
  case False
  then show ?thesis using winsorize_total [OF False] by (auto simp: winsorize_col_def)
qed

section \<open>Proofs: the household pipeline\<close>

lemma synthesized_props:
  "synthesize all_vars_needed (hh, 0) =
     (synthesized hh, length (filter (\<lambda>c. \<not> has_col hh c) all_vars_needed))"
  "nrows (synthesized hh) = nrows hh"
  "cols (synthesized hh) c =
     (if has_col hh c then cols hh c
      else if c \<in> set all_vars_needed then Some (replicate (nrows hh) None) else None)"
  "wf hh \<Longrightarrow> wf (synthesized hh)"
proof -
  obtain n where e: "synthesize all_vars_needed (hh, 0) = (synthesized hh, n)"
    by (metis synthesized_def prod.collapse)
  from synthesize_props [OF e] distinct_all_vars_needed
  show "synthesize all_vars_needed (hh, 0) =
     (synthesized hh, length (filter (\<lambda>c. \<not> has_col hh c) all_vars_needed))"
    and "nrows (synthesized hh) = nrows hh"
    and "cols (synthesized hh) c =
     (if has_col hh c then cols hh c
      else if c \<in> set all_vars_needed then Some (replicate (nrows hh) None) else None)"
    using e by auto
  show "wf (synthesized hh)" if "wf hh" using that e by (rule wf_synthesize)
qed

lemma has_col_synthesized: "c \<in> set all_vars_needed \<Longrightarrow> has_col (synthesized hh) c"
  by (simp add: has_col_def synthesized_props(3))

lemma not_val_neq: "not_val x \<Longrightarrow> x \<noteq> e @ ''_val''"
  by (simp add: not_val_def)

lemma coalesced_stage:
  assumes "wf hh"
  shows "\<exists>d1 d2 d3.
     coalesce all_debt_exact_vars all_debt_interval_vars (synthesized hh) =
       Inr (d1, val_cols all_debt_exact_vars) \<and>
     coalesce all_asset_exact_vars all_asset_interval_vars d1 =
       Inr (d2, val_cols all_asset_exact_vars) \<and>
     vehicle_adjust d2 = Inr d3 \<and> wf d3 \<and> nrows d3 = nrows hh \<and>
     (\<forall>i<length all_debt_exact_vars. cols d3 (all_debt_exact_vars ! i @ ''_val'') =
        Some (coalesced_column (synthesized hh) (all_debt_exact_vars ! i)
                (paired all_debt_interval_vars i))) \<and>
     (\<forall>i<length all_asset_exact_vars. cols d3 (all_asset_exact_vars ! i @ ''_val'') =
        Some (coalesced_column (synthesized hh) (all_asset_exact_vars ! i)
                (paired all_asset_interval_vars i))) \<and>
     cols d3 vehicle_adj_val_col = Some (vehicle_column (synthesized hh)) \<and>
     (\<forall>c. not_val c \<longrightarrow> cols d3 c = cols (synthesized hh) c)"
proof -
  let ?syn = "synthesized hh"
  let ?de = all_debt_exact_vars and ?di = all_debt_interval_vars
  let ?ae = all_asset_exact_vars and ?ai = all_asset_interval_vars
  have ws: "wf ?syn" and ns: "nrows ?syn = nrows hh"
    using assms by (simp_all add: synthesized_props)
  have hd: "filter (has_col ?syn) ?de = ?de"
    by (simp add: has_col_synthesized set_all_vars_needed)
  obtain d1 where
    c1: "coalesce ?de ?di ?syn = Inr (d1, val_cols ?de)"
    and n1: "nrows d1 = nrows ?syn"
    and o1: "\<forall>c. (\<forall>i<length ?de. c \<noteq> ?de ! i @ ''_val'') \<longrightarrow> cols d1 c = cols ?syn c"
    and v1: "\<forall>i<length ?de. cols d1 (?de ! i @ ''_val'') =
        Some (coalesced_column ?syn (?de ! i) (paired ?di i))"
    using coalesce_result [OF catalog_distinct(1) catalog_not_val(1) catalog_name_ok(1), of ?syn]
    unfolding hd val_cols_def by blast
  have w1: "wf d1" using ws n1 o1 v1 ws by (rule wf_coalesce_result) simp
  have k1: "cols d1 c = cols ?syn c" if "not_val c" for c
    using o1 that by (simp add: not_val_neq)
  have ha: "filter (has_col d1) ?ae = ?ae"
    using catalog_not_val(2) by (simp add: has_col_def k1 synthesized_props(3) set_all_vars_needed)
  obtain d2 where
    c2: "coalesce ?ae ?ai d1 = Inr (d2, val_cols ?ae)"
    and n2: "nrows d2 = nrows d1"
    and o2: "\<forall>c. (\<forall>i<length ?ae. c \<noteq> ?ae ! i @ ''_val'') \<longrightarrow> cols d2 c = cols d1 c"
    and v2: "\<forall>i<length ?ae. cols d2 (?ae ! i @ ''_val'') =
        Some (coalesced_column d1 (?ae ! i) (paired ?ai i))"
    using coalesce_result [OF catalog_distinct(2) catalog_not_val(2) catalog_name_ok(2), of d1]
    unfolding ha val_cols_def by blast
  have w2: "wf d2" using w1 n2 o2 v2 w1 by (rule wf_coalesce_result) simp
  have k2: "cols d2 c = cols ?syn c" if "not_val c" for c
    using o2 k1 that by (simp add: not_val_neq)
  have cc2: "coalesced_column d1 (?ae ! i) (paired ?ai i) =
             coalesced_column ?syn (?ae ! i) (paired ?ai i)" if "i < length ?ae" for i
  proof (rule coalesced_column_cong)
    show "nrows d1 = nrows ?syn" by (rule n1)
    show "cols d1 (?ae ! i) = cols ?syn (?ae ! i)"
      using that catalog_not_val(2) by (intro k1) simp
    show "cols d1 iv = cols ?syn iv" if "paired ?ai i = Some iv" for iv
    proof -
      from that have "iv \<in> set ?ai" by (auto simp: paired_def split: if_splits)
      then show ?thesis using catalog_not_val(2) by (intro k1) simp
    qed
  qed
  define d3 where "d3 = set_col vehicle_adj_val_col (vehicle_column d2) d2"
  have c3: "vehicle_adjust d2 = Inr d3" by (simp add: d3_def vehicle_adjust_result)
  have w3: "wf d3" unfolding d3_def using w2 by (simp add: wf_set_col length_vehicle_column)
  have n3: "nrows d3 = nrows hh" by (simp add: d3_def n2 n1 ns)
  have vc: "vehicle_column d2 = vehicle_column ?syn"
    using vehicle_names(3,4) by (simp add: vehicle_column_def has_col_def get_col_def k2 n2 n1)
  have k3: "cols d3 c = cols ?syn c" if "not_val c" for c
    using that k2 by (auto simp: d3_def vehicle_adj_val_col_def not_val_def)
  have v3d: "cols d3 (?de ! i @ ''_val'') =
        Some (coalesced_column ?syn (?de ! i) (paired ?di i))" if "i < length ?de" for i
  proof -
    have m: "?de ! i \<in> set ?de" using that by simp
    then have "?de ! i \<noteq> vehicle_in_business_col" using vehicle_names(1) by auto
    then have "cols d3 (?de ! i @ ''_val'') = cols d2 (?de ! i @ ''_val'')"
      by (simp add: d3_def vehicle_adj_val_col_def)
    also have "\<dots> = cols d1 (?de ! i @ ''_val'')"
    proof -
      have "\<forall>j<length ?ae. ?de ! i @ ''_val'' \<noteq> ?ae ! j @ ''_val''"
        using m catalog_disjoint by (metis append_same_eq disjoint_iff nth_mem)
      with o2 show ?thesis by blast
    qed
    finally show ?thesis using v1 that by simp
  qed
  have v3a: "cols d3 (?ae ! i @ ''_val'') =
        Some (coalesced_column ?syn (?ae ! i) (paired ?ai i))" if "i < length ?ae" for i
  proof -
    have m: "?ae ! i \<in> set ?ae" using that by simp
    then have "?ae ! i \<noteq> vehicle_in_business_col" using vehicle_names(1) by auto
    then have "cols d3 (?ae ! i @ ''_val'') = cols d2 (?ae ! i @ ''_val'')"
      by (simp add: d3_def vehicle_adj_val_col_def)
    then show ?thesis using v2 that cc2 by simp
  qed
  have v3v: "cols d3 vehicle_adj_val_col = Some (vehicle_column ?syn)"
    by (simp add: d3_def vc)
  show ?thesis using c1 c2 c3 w3 n3 v3d v3a v3v k3 by blast
qed

lemma derived_not_val: "c \<in> derived_cols \<Longrightarrow> not_val c"
  by (auto simp: derived_cols_def intro: not_val_last)

lemma val_not_derived: "e @ ''_val'' \<notin> derived_cols"
  using derived_not_val [of "e @ ''_val''"] by (auto simp: not_val_def)

lemma catalog_not_derived: "c \<in> set all_vars_needed \<Longrightarrow> c \<notin> derived_cols"
  by (auto simp: set_all_vars_needed catalog_eqs derived_cols_def
      vehicle_in_business_col_def vehicle_in_business_col_it_def)

lemma sum_list_get_col:
  "(\<Sum>s\<leftarrow>map (get_col df) cs. zero_filled (s ! j)) = (\<Sum>c\<leftarrow>cs. zero_filled (get_col df c ! j))"
  by (simp add: comp_def)

lemma process_result:
  assumes "wf hh"
  shows "\<exists>out. process_households hh =
       Inr (out, length (filter (\<lambda>c. \<not> has_col hh c) all_vars_needed)) \<and>
     nrows out = nrows hh \<and>
     (\<forall>i<length all_debt_exact_vars. cols out (all_debt_exact_vars ! i @ ''_val'') =
        Some (coalesced_column (synthesized hh) (all_debt_exact_vars ! i)
                (paired all_debt_interval_vars i))) \<and>
     (\<forall>i<length all_asset_exact_vars. cols out (all_asset_exact_vars ! i @ ''_val'') =
        Some (coalesced_column (synthesized hh) (all_asset_exact_vars ! i)
                (paired all_asset_interval_vars i))) \<and>
     cols out vehicle_adj_val_col = Some (vehicle_column (synthesized hh)) \<and>
     (\<forall>c \<in> set all_vars_needed. cols out c = cols (synthesized hh) c) \<and>
     get_col out ''total_debt'' =
       map (\<lambda>j. Some (\<Sum>c\<leftarrow>val_cols all_debt_exact_vars. zero_filled (get_col out c ! j)))
         [0..<nrows hh] \<and>
     get_col out ''total_assets_raw'' =
       map (\<lambda>j. Some (\<Sum>c\<leftarrow>val_cols all_asset_exact_vars. zero_filled (get_col out c ! j)))
         [0..<nrows hh] \<and>
     get_col out ''total_assets'' =
       map py_max0 (map2 sub_cell (get_col out ''total_assets_raw'')
                      (fillna 0 (get_col out vehicle_adj_val_col))) \<and>
     length (get_col out vehicle_adj_val_col) = nrows hh \<and>
     get_col out ''debt_ratio'' =
       map2 debt_ratio_cell (get_col out ''total_debt'') (get_col out ''total_assets'')"
proof -
  let ?syn = "synthesized hh"
  let ?de = all_debt_exact_vars and ?di = all_debt_interval_vars
  let ?ae = all_asset_exact_vars and ?ai = all_asset_interval_vars
  let ?dv = "val_cols ?de" and ?av = "val_cols ?ae"
  let ?n = "nrows hh"
  from coalesced_stage [OF assms] obtain d1 d2 d3 where
    c1: "coalesce ?de ?di ?syn = Inr (d1, ?dv)"
    and c2: "coalesce ?ae ?ai d1 = Inr (d2, ?av)"
    and c3: "vehicle_adjust d2 = Inr d3" and w3: "wf d3" and n3: "nrows d3 = ?n"
    and vd: "\<forall>i<length ?de. cols d3 (?de ! i @ ''_val'') =
        Some (coalesced_column ?syn (?de ! i) (paired ?di i))"
    and va: "\<forall>i<length ?ae. cols d3 (?ae ! i @ ''_val'') =
        Some (coalesced_column ?syn (?ae ! i) (paired ?ai i))"
    and vv: "cols d3 vehicle_adj_val_col = Some (vehicle_column ?syn)"
    and k3: "\<forall>c. not_val c \<longrightarrow> cols d3 c = cols ?syn c"
    by blast
  define t where "t = totals ?dv ?av d3"
  define r where "r = add_debt_ratio t"
  obtain out where wo: "winsorize_col ''debt_ratio'' ''debt_ratio_winsorized'' r = Inr out"
    using winsorize_col_total by blast
  have p: "process_households hh =
       Inr (out, length (filter (\<lambda>c. \<not> has_col hh c) all_vars_needed))"
    using wo by (simp add: process_households_def synthesized_props(1) c1 c2 c3 t_def r_def)
  have hdv: "has_col d3 c" if "c \<in> set ?dv" for c
    using that vd by (auto simp: val_cols_def has_col_def in_set_conv_nth)
  have hav: "has_col d3 c" if "c \<in> set ?av" for c
    using that va by (auto simp: val_cols_def has_col_def in_set_conv_nth)
  have hvv: "has_col d3 vehicle_adj_val_col" using vv by (simp add: has_col_def)
  have fdv: "filter (has_col d3) ?dv = ?dv" using hdv by simp
  have fav: "filter (has_col d3) ?av = ?av" using hav by simp
  have tdn: "''total_debt'' \<notin> set ?av"
    using val_not_derived by (auto simp: val_cols_def derived_cols_def)
  note tp = totals_props [OF tdn, where dv = ?dv and df = d3, folded t_def, unfolded fdv fav n3]
  have keep: "cols out c = cols d3 c" if "c \<notin> derived_cols" for c
  proof -
    have "cols out c = cols r c"
      using that winsorize_col_props(2) [OF wo] by (simp add: derived_cols_def)
    also have "\<dots> = cols t c"
      using that by (simp add: r_def add_debt_ratio_props(2) derived_cols_def)
    also have "\<dots> = cols d3 c"
      using that by (intro tp(5)) (simp add: derived_cols_def)
    finally show ?thesis .
  qed
  have keepg: "get_col out c = get_col d3 c" if "c \<notin> derived_cols" for c
    using keep [OF that] by (simp add: get_col_def)
  have keepv: "get_col out (e @ ''_val'') = get_col d3 (e @ ''_val'')" for e
    using val_not_derived by (rule keepg)
  have vnd: "vehicle_adj_val_col \<notin> derived_cols"
    using val_not_derived by (simp add: vehicle_adj_val_col_def)
  have ldv: "\<forall>s \<in> set (map (get_col d3) ?dv). length s = ?n"
    using hdv w3 n3 by (auto simp: wf_get_col)
  have lav: "\<forall>s \<in> set (map (get_col d3) ?av). length s = ?n"
    using hav w3 n3 by (auto simp: wf_get_col)
  have lv: "length (get_col d3 vehicle_adj_val_col) = ?n"
    using hvv w3 n3 by (simp add: wf_get_col)
  have gd: "get_col t ''total_debt'' =
      map (\<lambda>j. Some (\<Sum>c\<leftarrow>?dv. zero_filled (get_col d3 c ! j))) [0..<?n]"
    unfolding tp(2) sum_axis1_eq [OF ldv] sum_list_get_col ..
  have gr: "get_col t ''total_assets_raw'' =
      map (\<lambda>j. Some (\<Sum>c\<leftarrow>?av. zero_filled (get_col d3 c ! j))) [0..<?n]"
    unfolding tp(3) sum_axis1_eq [OF lav] sum_list_get_col ..
  have ga: "get_col t ''total_assets'' =
      map py_max0 (map2 sub_cell (get_col t ''total_assets_raw'')
                     (fillna 0 (get_col d3 vehicle_adj_val_col)))"
    unfolding tp(4) tp(3) using hvv by simp
  have la: "length (get_col t ''total_assets'') = ?n"
    unfolding ga gr using lv by simp
  have ld: "length (get_col t ''total_debt'') = ?n"
    unfolding gd by simp
  have grat: "get_col r ''debt_ratio'' =
      map2 debt_ratio_cell (get_col t ''total_debt'') (get_col t ''total_assets'')"
    unfolding r_def using ld la by (rule add_debt_ratio_props(3))
  have ot: "get_col out c = get_col t c" if "c \<noteq> ''debt_ratio''" "c \<noteq> ''debt_ratio_winsorized''" for c
    using that winsorize_col_props(2) [OF wo, of c] add_debt_ratio_props(2) [of c t]
    by (simp add: get_col_def r_def)
  have orat: "get_col out ''debt_ratio'' = get_col r ''debt_ratio''"
    using winsorize_col_props(2) [OF wo, of "''debt_ratio''"] by (simp add: get_col_def)
  have sd: "(\<Sum>c\<leftarrow>?dv. zero_filled (get_col d3 c ! j)) =
            (\<Sum>c\<leftarrow>?dv. zero_filled (get_col out c ! j))" for j
    by (simp add: val_cols_def comp_def keepv)
  have sa: "(\<Sum>c\<leftarrow>?av. zero_filled (get_col d3 c ! j)) =
            (\<Sum>c\<leftarrow>?av. zero_filled (get_col out c ! j))" for j
    by (simp add: val_cols_def comp_def keepv)
  have "nrows out = ?n"
    using winsorize_col_props(1) [OF wo] by (simp add: r_def add_debt_ratio_props(1) tp(1))
  moreover have "\<forall>i<length ?de. cols out (?de ! i @ ''_val'') =
        Some (coalesced_column ?syn (?de ! i) (paired ?di i))"
    using vd keep val_not_derived by simp
  moreover have "\<forall>i<length ?ae. cols out (?ae ! i @ ''_val'') =
        Some (coalesced_column ?syn (?ae ! i) (paired ?ai i))"
    using va keep val_not_derived by simp
  moreover have "cols out vehicle_adj_val_col = Some (vehicle_column ?syn)"
    using vv keep [OF vnd] by simp
  moreover have "\<forall>c \<in> set all_vars_needed. cols out c = cols ?syn c"
  proof
    fix c assume c: "c \<in> set all_vars_needed"
    then have "not_val c"
      using catalog_not_val vehicle_names(3,4) by (auto simp: set_all_vars_needed)
    then show "cols out c = cols ?syn c"
      using keep [OF catalog_not_derived [OF c]] k3 by simp
  qed
  moreover have "get_col out ''total_debt'' =
       map (\<lambda>j. Some (\<Sum>c\<leftarrow>?dv. zero_filled (get_col out c ! j))) [0..<?n]"
    using gd by (simp add: ot sd)
  moreover have "get_col out ''total_assets_raw'' =
       map (\<lambda>j. Some (\<Sum>c\<leftarrow>?av. zero_filled (get_col out c ! j))) [0..<?n]"
    using gr by (simp add: ot sa)
  moreover have "get_col out ''total_assets'' =
       map py_max0 (map2 sub_cell (get_col out ''total_assets_raw'')
                      (fillna 0 (get_col out vehicle_adj_val_col)))"
    using ga by (simp add: ot keepg [OF vnd])
  moreover have "length (get_col out vehicle_adj_val_col) = ?n"
    using lv by (simp add: keepg [OF vnd])
  moreover have "get_col out ''debt_ratio'' =
       map2 debt_ratio_cell (get_col out ''total_debt'') (get_col out ''total_assets'')"
    using grat by (simp add: ot orat)
  ultimately show ?thesis using p by blast
qed

lemma epsilon_pos: "0 < epsilon"
  by (simp add: epsilon_def)

lemma process_row:
  assumes "wf hh_df" and "process_households hh_df = Inr (out, missing_cols_count)"
    and "j < nrows hh_df"
  shows "length (get_col out ''total_debt'') = nrows hh_df"
    and "length (get_col out ''total_assets'') = nrows hh_df"
    and "get_col out ''total_debt'' ! j =
       Some (\<Sum>c\<leftarrow>val_cols all_debt_exact_vars. zero_filled (get_col out c ! j))"
    and "get_col out ''total_assets_raw'' ! j =
       Some (\<Sum>c\<leftarrow>val_cols all_asset_exact_vars. zero_filled (get_col out c ! j))"
    and "get_col out ''total_assets'' ! j =
       Some (max ((\<Sum>c\<leftarrow>val_cols all_asset_exact_vars. zero_filled (get_col out c ! j))
                  - zero_filled (get_col out vehicle_adj_val_col ! j)) 0)"
    and "get_col out ''debt_ratio'' ! j =
       debt_ratio_cell (get_col out ''total_debt'' ! j) (get_col out ''total_assets'' ! j)"
proof -
  from process_result [OF assms(1)] assms(2) have
    td: "get_col out ''total_debt'' =
       map (\<lambda>j. Some (\<Sum>c\<leftarrow>val_cols all_debt_exact_vars. zero_filled (get_col out c ! j)))
         [0..<nrows hh_df]"
    and tr: "get_col out ''total_assets_raw'' =
       map (\<lambda>j. Some (\<Sum>c\<leftarrow>val_cols all_asset_exact_vars. zero_filled (get_col out c ! j)))
         [0..<nrows hh_df]"
    and ta: "get_col out ''total_assets'' =
       map py_max0 (map2 sub_cell (get_col out ''total_assets_raw'')
                      (fillna 0 (get_col out vehicle_adj_val_col)))"
    and lv: "length (get_col out vehicle_adj_val_col) = nrows hh_df"
    and dr: "get_col out ''debt_ratio'' =
       map2 debt_ratio_cell (get_col out ''total_debt'') (get_col out ''total_assets'')"
    by auto
  show l1: "length (get_col out ''total_debt'') = nrows hh_df" by (simp add: td)
  have lr: "length (get_col out ''total_assets_raw'') = nrows hh_df" by (simp add: tr)
  show l2: "length (get_col out ''total_assets'') = nrows hh_df" by (simp add: ta lr lv)
  show "get_col out ''total_debt'' ! j =
       Some (\<Sum>c\<leftarrow>val_cols all_debt_exact_vars. zero_filled (get_col out c ! j))"
    using assms(3) by (simp add: td)
  show r: "get_col out ''total_assets_raw'' ! j =
       Some (\<Sum>c\<leftarrow>val_cols all_asset_exact_vars. zero_filled (get_col out c ! j))"
    using assms(3) by (simp add: tr)
  have "get_col out ''total_assets'' ! j =
      py_max0 (sub_cell (get_col out ''total_assets_raw'' ! j)
                 (fillna 0 (get_col out vehicle_adj_val_col) ! j))"
    using assms(3) lr lv by (simp add: ta)
  then show "get_col out ''total_assets'' ! j =
       Some (max ((\<Sum>c\<leftarrow>val_cols all_asset_exact_vars. zero_filled (get_col out c ! j))
                  - zero_filled (get_col out vehicle_adj_val_col ! j)) 0)"
    using assms(3) lv by (simp add: r fillna_nth max_def)
  show "get_col out ''debt_ratio'' ! j =
       debt_ratio_cell (get_col out ''total_debt'' ! j) (get_col out ''total_assets'' ! j)"
    using assms(3) l1 l2 by (simp add: dr)
qed

text \<open>
  Claim C10. In the output of the pipeline, the columns \<^verbatim>\<open>total_debt\<close> and
  \<^verbatim>\<open>total_assets\<close> have one cell per household, and for every household both
  are numbers: \<^verbatim>\<open>total_debt\<close> is the sum of the coalesced debt columns and
  \<^verbatim>\<open>total_assets_raw\<close> the sum of the coalesced asset columns, a missing value
  counting as \<open>0\<close>.
\<close>

theorem totals_never_missing:
  assumes "wf hh_df" and "process_households hh_df = Inr (out, missing_cols_count)"
    and "j < nrows hh_df"
  shows "length (get_col out ''total_debt'') = nrows hh_df \<and>
     length (get_col out ''total_assets'') = nrows hh_df \<and>
     get_col out ''total_debt'' ! j =
       Some (\<Sum>c\<leftarrow>val_cols all_debt_exact_vars. zero_filled (get_col out c ! j)) \<and>
     get_col out ''total_assets_raw'' ! j =
       Some (\<Sum>c\<leftarrow>val_cols all_asset_exact_vars. zero_filled (get_col out c ! j)) \<and>
     (\<exists>a. get_col out ''total_assets'' ! j = Some a)"
  using process_row [OF assms] by simp

text \<open>
  Claim C5. For every household, \<^verbatim>\<open>total_assets\<close> is \<^verbatim>\<open>total_assets_raw\<close> minus
  the vehicle-in-business adjustment (\<open>0\<close> when it is missing), floored at \<open>0\<close>,
  and so is never negative.
\<close>

theorem total_assets_floor:
  assumes "wf hh_df" and "process_households hh_df = Inr (out, missing_cols_count)"
    and "j < nrows hh_df"
  shows "\<exists>raw a. get_col out ''total_assets_raw'' ! j = Some raw \<and>
     get_col out ''total_assets'' ! j = Some a \<and>
     a = max (raw - zero_filled (get_col out vehicle_adj_val_col ! j)) 0 \<and> 0 \<le> a"
  using process_row(4,5) [OF assms] by simp

text \<open>
  Claim C3. For every household the two totals are numbers \<open>d\<close> and \<open>a\<close>, with
  \<open>a\<close> not negative. The debt ratio is \<open>0\<close> when both are \<open>0\<close>, is missing when
  \<open>d\<close> is positive and \<open>a\<close> is \<open>0\<close>, and is \<open>d / (a + epsilon)\<close> otherwise,
  which is not negative when \<open>d\<close> is not negative. Floats are exact reals here, so
  every number is finite.
\<close>

theorem debt_ratio_cases:
  assumes "wf hh_df" and "process_households hh_df = Inr (out, missing_cols_count)"
    and "j < nrows hh_df"
  shows "\<exists>d a. get_col out ''total_debt'' ! j = Some d \<and>
     get_col out ''total_assets'' ! j = Some a \<and> 0 \<le> a \<and>
     (d = 0 \<and> a = 0 \<longrightarrow> get_col out ''debt_ratio'' ! j = Some 0) \<and>
     (0 < d \<and> a = 0 \<longrightarrow> get_col out ''debt_ratio'' ! j = None) \<and>
     (\<not> (d = 0 \<and> a = 0) \<and> \<not> (0 < d \<and> a = 0) \<longrightarrow>
        get_col out ''debt_ratio'' ! j = Some (d / (a + epsilon)) \<and>
        (0 \<le> d \<longrightarrow> 0 \<le> d / (a + epsilon)))"
proof -
  obtain d a where d: "get_col out ''total_debt'' ! j = Some d"
    and a: "get_col out ''total_assets'' ! j = Some a" and a0: "0 \<le> a"
    using process_row(3,5) [OF assms] by simp
  have q: "get_col out ''debt_ratio'' ! j = debt_ratio_cell (Some d) (Some a)"
    using process_row(6) [OF assms] by (simp add: d a)
  have ne: "a + epsilon \<noteq> 0" using a0 epsilon_pos by linarith
  have "0 \<le> d / (a + epsilon)" if "0 \<le> d"
    using that a0 epsilon_pos by simp
  then show ?thesis
    using d a a0 q ne by (auto simp: debt_ratio_cell_def)
qed

text \<open>
  Claim C4. For every exact field of the catalog that the household table has, and
  every household whose exact value is present, the coalesced value is the exact
  value, whatever the interval code is: a midpoint is used only where the exact
  value is missing.
\<close>

theorem exact_value_wins:
  assumes "wf hh_df" and "process_households hh_df = Inr (out, missing_cols_count)"
    and "exact \<in> set all_debt_exact_vars \<union> set all_asset_exact_vars"
    and "has_col hh_df exact" and "j < nrows hh_df" and "get_col hh_df exact ! j = Some v"
  shows "get_col out (exact @ ''_val'') ! j = Some v"
proof -
  let ?syn = "synthesized hh_df"
  from assms(3) obtain interval where
    c: "cols out (exact @ ''_val'') = Some (coalesced_column ?syn exact interval)"
    using process_result [OF assms(1)] assms(2) by (auto simp: in_set_conv_nth)
  have ws: "wf ?syn" and ns: "nrows ?syn = nrows hh_df"
    using assms(1) by (simp_all add: synthesized_props)
  have hs: "has_col ?syn exact" and gs: "get_col ?syn exact = get_col hh_df exact"
    using assms(4) by (simp_all add: has_col_def get_col_def synthesized_props(3))
  have le: "length (get_col hh_df exact) = nrows hh_df"
    using assms(1,4) by (rule wf_get_col)
  have "coalesced_column ?syn exact interval ! j = Some v"
  proof (cases "\<exists>iv. interval = Some iv \<and> iv \<noteq> [] \<and> has_col ?syn iv")
    case True
    then obtain iv where iv: "interval = Some iv" "iv \<noteq> []" "has_col ?syn iv" by blast
    have li: "length (get_col ?syn iv) = nrows hh_df"
      using wf_get_col [OF ws iv(3)] ns by simp
    show ?thesis
      using iv hs gs le li assms(5,6)
      by (simp add: coalesced_column_def nth_combine_first)
  next
    case False
    then show ?thesis using hs gs assms(6)
      by (auto simp: coalesced_column_def split: option.splits)
  qed
  then show ?thesis using c by (simp add: get_col_def)
qed

lemma midpoint_of_None [simp]: "midpoint_of iv None = None"
  by (simp add: midpoint_of_def get_midpoint_def)

lemma synthesized_cell:
  assumes "wf hh" "j < nrows hh" "c \<in> set all_vars_needed"
  shows "has_col (synthesized hh) c" and "length (get_col (synthesized hh) c) = nrows hh"
    and "get_col (synthesized hh) c ! j = cell_of hh c j"
proof -
  show h: "has_col (synthesized hh) c" using assms(3) by (rule has_col_synthesized)
  show "length (get_col (synthesized hh) c) = nrows hh"
    using wf_get_col [OF synthesized_props(4) [OF assms(1)] h] by (simp add: synthesized_props(2))
  show "get_col (synthesized hh) c ! j = cell_of hh c j"
    using assms(2,3) by (simp add: get_col_def cell_of_def synthesized_props(3) has_col_def)
qed

lemma coalesced_column_cell:
  assumes "wf hh" "j < nrows hh" "exact \<in> set all_vars_needed"
    and "\<And>iv. interval = Some iv \<Longrightarrow> iv \<in> set all_vars_needed \<and> iv \<noteq> []"
  shows "coalesced_column (synthesized hh) exact interval ! j = coalesced_cell hh exact interval j"
proof (cases interval)
  case None
  then show ?thesis
    using synthesized_cell [OF assms(1,2,3)]
    by (simp add: coalesced_column_def coalesced_cell_def split: option.splits)
next
  case (Some iv)
  with assms(4) have iv: "iv \<in> set all_vars_needed" "iv \<noteq> []" by auto
  show ?thesis
    using synthesized_cell [OF assms(1,2,3)] synthesized_cell [OF assms(1,2) iv(1)] iv(2) assms(2)
    by (simp add: Some coalesced_column_def coalesced_cell_def nth_combine_first
        split: option.splits)
qed

lemma catalog_nonempty: "[] \<notin> set all_vars_needed"
  by (simp add: set_all_vars_needed catalog_eqs vehicle_in_business_col_def
      vehicle_in_business_col_it_def)

lemma paired_in_catalog:
  "paired all_debt_interval_vars i = Some iv \<Longrightarrow> iv \<in> set all_vars_needed \<and> iv \<noteq> []"
  "paired all_asset_interval_vars i = Some iv \<Longrightarrow> iv \<in> set all_vars_needed \<and> iv \<noteq> []"
proof -
  show "iv \<in> set all_vars_needed \<and> iv \<noteq> []" if "paired all_debt_interval_vars i = Some iv"
  proof -
    from that have "iv \<in> set all_debt_interval_vars"
      by (auto simp: paired_def split: if_splits)
    then have "iv \<in> set all_vars_needed" by (simp add: set_all_vars_needed)
    then show ?thesis using catalog_nonempty by auto
  qed
  show "iv \<in> set all_vars_needed \<and> iv \<noteq> []" if "paired all_asset_interval_vars i = Some iv"
  proof -
    from that have "iv \<in> set all_asset_interval_vars"
      by (auto simp: paired_def split: if_splits)
    then have "iv \<in> set all_vars_needed" by (simp add: set_all_vars_needed)
    then show ?thesis using catalog_nonempty by auto
  qed
qed

lemma process_cells:
  assumes "wf hh_df" and "process_households hh_df = Inr (out, missing_cols_count)"
    and "j < nrows hh_df"
  shows "(exact, interval) \<in> set (pairing all_debt_exact_vars all_debt_interval_vars) \<Longrightarrow>
         get_col out (exact @ ''_val'') ! j = coalesced_cell hh_df exact interval j"
    and "(exact, interval) \<in> set (pairing all_asset_exact_vars all_asset_interval_vars) \<Longrightarrow>
         get_col out (exact @ ''_val'') ! j = coalesced_cell hh_df exact interval j"
    and "c \<in> set all_vars_needed \<Longrightarrow> get_col out c ! j = cell_of hh_df c j"
    and "get_col out vehicle_adj_val_col ! j =
         coalesced_cell hh_df vehicle_in_business_col (Some vehicle_in_business_col_it) j"
proof -
  note r = process_result [OF assms(1)]
  show "get_col out vehicle_adj_val_col ! j =
         coalesced_cell hh_df vehicle_in_business_col (Some vehicle_in_business_col_it) j"
  proof -
    let ?syn = "synthesized hh_df"
    have m: "vehicle_in_business_col \<in> set all_vars_needed"
      "vehicle_in_business_col_it \<in> set all_vars_needed"
      by (simp_all add: set_all_vars_needed)
    have ne: "vehicle_in_business_col_it \<noteq> []" using m(2) catalog_nonempty by auto
    have "vehicle_column ?syn =
        coalesced_column ?syn vehicle_in_business_col (Some vehicle_in_business_col_it)"
      using has_col_synthesized [OF m(1)] has_col_synthesized [OF m(2)] ne
      by (simp add: vehicle_column_def coalesced_column_def)
    moreover have "cols out vehicle_adj_val_col = Some (vehicle_column ?syn)"
      using r assms(2) by auto
    ultimately show ?thesis
      using coalesced_column_cell [OF assms(1,3) m(1),
          of "Some vehicle_in_business_col_it"] m(2) ne
      by (simp add: get_col_def)
  qed
  show "get_col out (exact @ ''_val'') ! j = coalesced_cell hh_df exact interval j"
    if "(exact, interval) \<in> set (pairing all_debt_exact_vars all_debt_interval_vars)"
  proof -
    from that obtain i where i: "i < length all_debt_exact_vars"
      "exact = all_debt_exact_vars ! i" "interval = paired all_debt_interval_vars i"
      by (auto simp: pairing_def)
    have "cols out (exact @ ''_val'') = Some (coalesced_column (synthesized hh_df) exact interval)"
      using r assms(2) i by auto
    moreover have "exact \<in> set all_vars_needed" using i by (simp add: set_all_vars_needed)
    ultimately show ?thesis
      using coalesced_column_cell [OF assms(1,3), of exact interval] paired_in_catalog(1) i(3)
      by (simp add: get_col_def)
  qed
  show "get_col out (exact @ ''_val'') ! j = coalesced_cell hh_df exact interval j"
    if "(exact, interval) \<in> set (pairing all_asset_exact_vars all_asset_interval_vars)"
  proof -
    from that obtain i where i: "i < length all_asset_exact_vars"
      "exact = all_asset_exact_vars ! i" "interval = paired all_asset_interval_vars i"
      by (auto simp: pairing_def)
    have "cols out (exact @ ''_val'') = Some (coalesced_column (synthesized hh_df) exact interval)"
      using r assms(2) i by auto
    moreover have "exact \<in> set all_vars_needed" using i by (simp add: set_all_vars_needed)
    ultimately show ?thesis
      using coalesced_column_cell [OF assms(1,3), of exact interval] paired_in_catalog(2) i(3)
      by (simp add: get_col_def)
  qed
  show "get_col out c ! j = cell_of hh_df c j" if "c \<in> set all_vars_needed"
  proof -
    have "cols out c = cols (synthesized hh_df) c" using r assms(2) that by auto
    then show ?thesis using synthesized_cell(3) [OF assms(1,3) that] by (simp add: get_col_def)
  qed
qed

lemma sum_val_cols:
  assumes "\<And>exact interval. (exact, interval) \<in> set (pairing ex iv) \<Longrightarrow>
       g (exact @ ''_val'') = h exact interval"
  shows "(\<Sum>c\<leftarrow>val_cols ex. (g c :: real)) = (\<Sum>(e, i)\<leftarrow>pairing ex iv. h e i)"
proof -
  have "val_cols ex = map (\<lambda>i. ex ! i @ ''_val'') [0..<length ex]"
    unfolding val_cols_def by (rule nth_equalityI) auto
  then have "(\<Sum>c\<leftarrow>val_cols ex. g c) = (\<Sum>i\<leftarrow>[0..<length ex]. g (ex ! i @ ''_val''))"
    by (simp add: comp_def)
  also have "\<dots> = (\<Sum>i\<leftarrow>[0..<length ex]. h (ex ! i) (paired iv i))"
    by (rule arg_cong [where f = sum_list], rule map_cong) (auto intro!: assms simp: pairing_def)
  also have "\<dots> = (\<Sum>(e, i)\<leftarrow>pairing ex iv. h e i)"
    by (simp add: pairing_def comp_def)
  finally show ?thesis .
qed

lemma process_totals_cells:
  assumes "wf hh_df" and "process_households hh_df = Inr (out, missing_cols_count)"
    and "j < nrows hh_df"
  shows "get_col out ''total_debt'' ! j =
       Some (\<Sum>(e, i)\<leftarrow>pairing all_debt_exact_vars all_debt_interval_vars.
               zero_filled (coalesced_cell hh_df e i j))"
    and "get_col out ''total_assets_raw'' ! j =
       Some (\<Sum>(e, i)\<leftarrow>pairing all_asset_exact_vars all_asset_interval_vars.
               zero_filled (coalesced_cell hh_df e i j))"
  unfolding process_row(3,4) [OF assms]
  using process_cells(1,2) [OF assms]
  by (simp_all add: sum_val_cols [where h = "\<lambda>e i. zero_filled (coalesced_cell hh_df e i j)"])

lemma debt_pairing:
  "pairing all_debt_exact_vars all_debt_interval_vars =
     [(''b3005b_2'', Some ''b3031ait_2''), (''b3031a_2'', Some ''c2064it_1''),
      (''c2064_1'', Some ''c2064it_2''), (''c2064_2'', Some ''c2064it_3''),
      (''c2064_3'', Some ''c2064it_4''), (''c2064_4'', Some ''c2064it_5''),
      (''c2064_5'', Some ''c2064it_6''), (''c2064_6'', Some ''c3002ait_1''),
      (''c3002a_1'', Some ''c3002ait_2''), (''c3002a_2'', Some ''c3002ait_3''),
      (''c3002a_3'', Some ''c3002ait_4''), (''c3002a_4'', Some ''c3002ait_5''),
      (''c3002a_5'', Some ''c3002ait_6''), (''c3002a_6'', Some ''c2023eit''),
      (''c2023e'', Some ''c3017cait''), (''c3017ca'', Some ''c3019cit''),
      (''c3019c'', Some ''c3019eit''), (''c3019e'', Some ''c7060it''),
      (''c7060'', Some ''c7061it''), (''c7061'', Some ''c8007it''),
      (''c8007'', Some ''d9108it''), (''d3116b'', Some ''e1006it''),
      (''d9108'', Some ''e1022it''), (''e1006'', Some ''e4003it''),
      (''e1022'', Some ''e3003cit''), (''e4003'', None), (''e3003c'', None)]"
  by (simp add: pairing_def paired_def catalog_eqs)

lemma asset_pairing:
  "pairing all_asset_exact_vars all_asset_interval_vars =
     [(''b2003d'', Some ''b2003dit''), (''c2016_1'', Some ''c2016it_1''),
      (''c2016_2'', Some ''c2016it_2''), (''c2016_3'', Some ''c2016it_3''),
      (''c2016_4'', Some ''c2016it_4''), (''c2016_5'', Some ''c2016it_5''),
      (''c2016_6'', Some ''c2016it_6''), (''c2023d'', Some ''c2023dit''),
      (''c3019a'', Some ''c3019ait''), (''c7052b'', Some ''c7052bit''),
      (''c7059'', Some ''d1105it''), (''c7058'', Some ''d2104it''),
      (''c8002'', Some ''d3103it''), (''c8005'', Some ''d3109it''),
      (''d1105'', Some ''d3116it''), (''d2104'', Some ''d5107it''),
      (''d3103'', Some ''d7106hit''), (''d3109'', Some ''d7110ait''),
      (''d3116'', Some ''d4103it_1''), (''d5107'', Some ''d4103it_2''),
      (''d7106h'', Some ''d4103it_3''), (''d7110a'', Some ''d4103it_4''),
      (''d4103_1'', Some ''d4103it_5''), (''d4103_2'', Some ''d6100ait''),
      (''d4103_3'', Some ''d8104it''), (''d4103_4'', Some ''d9103it''),
      (''d4103_5'', Some ''d9110ait''), (''d6100a'', Some ''k1101it''),
      (''d8104'', Some ''k2102cit''), (''d9103'', None), (''d9110a'', None), (''k1101'', None),
      (''k2102c'', None)]"
  by (simp add: pairing_def paired_def catalog_eqs)

lemma wf_example_hh_df: "wf example_hh_df"
  by (auto simp: wf_def example_hh_df_def split: if_splits)

lemmas example_eval = cell_of_def coalesced_cell_def has_col_def get_col_def zero_filled_def
  midpoint_of_def get_midpoint_def base_var_name_def mappings_def vars_defs tbl_defs

lemma example_hh_totals:
  assumes "process_households example_hh_df = Inr (out, missing_cols_count)"
  shows "get_col out ''total_debt'' ! 0 = Some 6000"
    and "get_col out ''total_debt'' ! 2 = Some 0"
    and "get_col out ''total_debt'' ! 3 = Some 500"
    and "get_col out ''total_assets_raw'' ! 0 = Some 20000"
    and "get_col out ''total_assets_raw'' ! 1 = Some 5000"
    and "get_col out ''total_assets_raw'' ! 2 = Some 0"
    and "get_col out ''total_assets_raw'' ! 3 = Some 0"
proof -
  have n: "0 < nrows example_hh_df" "1 < nrows example_hh_df" "2 < nrows example_hh_df"
    "3 < nrows example_hh_df"
    by (simp_all add: example_hh_df_def)
  show "get_col out ''total_debt'' ! 0 = Some 6000"
    unfolding process_totals_cells(1) [OF wf_example_hh_df assms n(1)] debt_pairing
    by (simp add: example_eval example_hh_df_def)
  show "get_col out ''total_debt'' ! 2 = Some 0"
    unfolding process_totals_cells(1) [OF wf_example_hh_df assms n(3)] debt_pairing
    by (simp add: example_eval example_hh_df_def)
  show "get_col out ''total_debt'' ! 3 = Some 500"
    unfolding process_totals_cells(1) [OF wf_example_hh_df assms n(4)] debt_pairing
    by (simp add: example_eval example_hh_df_def)
  show "get_col out ''total_assets_raw'' ! 0 = Some 20000"
    unfolding process_totals_cells(2) [OF wf_example_hh_df assms n(1)] asset_pairing
    by (simp add: example_eval example_hh_df_def)
  show "get_col out ''total_assets_raw'' ! 1 = Some 5000"
    unfolding process_totals_cells(2) [OF wf_example_hh_df assms n(2)] asset_pairing
    by (simp add: example_eval example_hh_df_def)
  show "get_col out ''total_assets_raw'' ! 2 = Some 0"
    unfolding process_totals_cells(2) [OF wf_example_hh_df assms n(3)] asset_pairing
    by (simp add: example_eval example_hh_df_def)
  show "get_col out ''total_assets_raw'' ! 3 = Some 0"
    unfolding process_totals_cells(2) [OF wf_example_hh_df assms n(4)] asset_pairing
    by (simp add: example_eval example_hh_df_def)
qed

lemma example_hh_vehicle:
  assumes "process_households example_hh_df = Inr (out, missing_cols_count)"
  shows "get_col out vehicle_adj_val_col ! 0 = Some 1000"
    and "get_col out vehicle_adj_val_col ! 2 = Some 7000"
    and "get_col out vehicle_adj_val_col ! 3 = None"
proof -
  have n: "0 < nrows example_hh_df" "2 < nrows example_hh_df" "3 < nrows example_hh_df"
    by (simp_all add: example_hh_df_def)
  show "get_col out vehicle_adj_val_col ! 0 = Some 1000"
    unfolding process_cells(4) [OF wf_example_hh_df assms n(1)]
    by (simp add: example_eval example_hh_df_def vehicle_in_business_col_def
        vehicle_in_business_col_it_def)
  show "get_col out vehicle_adj_val_col ! 2 = Some 7000"
    unfolding process_cells(4) [OF wf_example_hh_df assms n(2)]
    by (simp add: example_eval example_hh_df_def vehicle_in_business_col_def
        vehicle_in_business_col_it_def)
  show "get_col out vehicle_adj_val_col ! 3 = None"
    unfolding process_cells(4) [OF wf_example_hh_df assms n(3)]
    by (simp add: example_eval example_hh_df_def vehicle_in_business_col_def
        vehicle_in_business_col_it_def)
qed

lemma example_hh_rows:
  assumes "process_households example_hh_df = Inr (out, missing_cols_count)"
  shows "get_col out ''total_assets'' ! 0 = Some 19000"
    and "get_col out ''total_assets'' ! 2 = Some 0"
    and "get_col out ''total_assets'' ! 3 = Some 0"
    and "get_col out ''debt_ratio'' ! 0 = Some (6000 / (19000 + epsilon))"
    and "get_col out ''debt_ratio'' ! 2 = Some 0"
    and "get_col out ''debt_ratio'' ! 3 = None"
proof -
  have n: "0 < nrows example_hh_df" "2 < nrows example_hh_df" "3 < nrows example_hh_df"
    by (simp_all add: example_hh_df_def)
  note t = example_hh_totals [OF assms] and v = example_hh_vehicle [OF assms]
  show a0: "get_col out ''total_assets'' ! 0 = Some 19000"
    using process_row(4,5) [OF wf_example_hh_df assms n(1)] t(4) v(1)
    by (simp add: zero_filled_def)
  show a2: "get_col out ''total_assets'' ! 2 = Some 0"
    using process_row(4,5) [OF wf_example_hh_df assms n(2)] t(6) v(2)
    by (simp add: zero_filled_def)
  show a3: "get_col out ''total_assets'' ! 3 = Some 0"
    using process_row(4,5) [OF wf_example_hh_df assms n(3)] t(7) v(3)
    by (simp add: zero_filled_def)
  have e: "19000 + epsilon \<noteq> 0" using epsilon_pos by linarith
  show "get_col out ''debt_ratio'' ! 0 = Some (6000 / (19000 + epsilon))"
    using e by (simp add: process_row(6) [OF wf_example_hh_df assms n(1)] t(1) a0
        debt_ratio_cell_def)
  show "get_col out ''debt_ratio'' ! 2 = Some 0"
    by (simp add: process_row(6) [OF wf_example_hh_df assms n(2)] t(2) a2 debt_ratio_cell_def)
  show "get_col out ''debt_ratio'' ! 3 = None"
    by (simp add: process_row(6) [OF wf_example_hh_df assms n(3)] t(3) a3 debt_ratio_cell_def)
qed

theorem totals_never_missing_witness:
  "wf example_hh_df \<and> 3 < nrows example_hh_df \<and>
   (\<exists>out missing_cols_count.
      process_households example_hh_df = Inr (out, missing_cols_count) \<and>
      length (get_col out ''total_debt'') = 4 \<and> length (get_col out ''total_assets'') = 4 \<and>
      get_col out ''total_debt'' ! 3 = Some 500 \<and>
      get_col out ''total_assets'' ! 3 = Some 0 \<and>
      get_col out ''debt_ratio'' ! 3 = None)"
proof -
  obtain out cnt where p: "process_households example_hh_df = Inr (out, cnt)"
    using process_result [OF wf_example_hh_df] by blast
  have n: "3 < nrows example_hh_df" and n4: "nrows example_hh_df = 4"
    by (simp_all add: example_hh_df_def)
  show ?thesis
    using totals_never_missing [OF wf_example_hh_df p n] wf_example_hh_df p n n4
      example_hh_totals(3) [OF p] example_hh_rows(3,6) [OF p]
    by auto
qed

theorem total_assets_floor_witness:
  "wf example_hh_df \<and> 2 < nrows example_hh_df \<and>
   (\<exists>out missing_cols_count.
      process_households example_hh_df = Inr (out, missing_cols_count) \<and>
      get_col out ''total_assets_raw'' ! 2 = Some 0 \<and>
      get_col out vehicle_adj_val_col ! 2 = Some 7000 \<and>
      get_col out ''total_assets'' ! 2 = Some 0)"
proof -
  obtain out cnt where p: "process_households example_hh_df = Inr (out, cnt)"
    using process_result [OF wf_example_hh_df] by blast
  have n: "2 < nrows example_hh_df" by (simp add: example_hh_df_def)
  show ?thesis
    using total_assets_floor [OF wf_example_hh_df p n] wf_example_hh_df p n
      example_hh_totals(6) [OF p] example_hh_vehicle(2) [OF p]
    by (auto simp: zero_filled_def)
qed

theorem debt_ratio_cases_witness:
  "wf example_hh_df \<and> 0 < nrows example_hh_df \<and> 2 < nrows example_hh_df \<and>
   3 < nrows example_hh_df \<and>
   (\<exists>out missing_cols_count.
      process_households example_hh_df = Inr (out, missing_cols_count) \<and>
      get_col out ''total_debt'' ! 0 = Some 6000 \<and>
      get_col out ''total_assets'' ! 0 = Some 19000 \<and>
      get_col out ''debt_ratio'' ! 0 = Some (6000 / (19000 + epsilon)) \<and>
      (0::real) \<le> 6000 / (19000 + epsilon) \<and>
      get_col out ''total_debt'' ! 2 = Some 0 \<and>
      get_col out ''total_assets'' ! 2 = Some 0 \<and>
      get_col out ''debt_ratio'' ! 2 = Some 0 \<and>
      get_col out ''total_debt'' ! 3 = Some 500 \<and>
      get_col out ''total_assets'' ! 3 = Some 0 \<and>
      get_col out ''debt_ratio'' ! 3 = None)"
proof -
  obtain out cnt where p: "process_households example_hh_df = Inr (out, cnt)"
    using process_result [OF wf_example_hh_df] by blast
  have n: "0 < nrows example_hh_df" "2 < nrows example_hh_df" "3 < nrows example_hh_df"
    by (simp_all add: example_hh_df_def)
  note t = example_hh_totals [OF p]
  note r = example_hh_rows [OF p]
  have "(0::real) \<le> 6000 / (19000 + epsilon)"
    using debt_ratio_cases [OF wf_example_hh_df p n(1)] t(1) r(1) by auto
  moreover have "get_col out ''debt_ratio'' ! 2 = Some 0"
    using debt_ratio_cases [OF wf_example_hh_df p n(2)] t(2) r(2) by auto
  moreover have "get_col out ''debt_ratio'' ! 3 = None"
    using debt_ratio_cases [OF wf_example_hh_df p n(3)] t(3) r(3) by auto
  ultimately show ?thesis
    using wf_example_hh_df p n t(1,2,3) r(1,2,3,4) by blast
qed

theorem exact_value_wins_witness:
  "wf example_hh_df \<and> ''c3019a'' \<in> set all_debt_exact_vars \<union> set all_asset_exact_vars \<and>
   has_col example_hh_df ''c3019a'' \<and> 0 < nrows example_hh_df \<and>
   get_col example_hh_df ''c3019a'' ! 0 = Some 20000 \<and>
   get_col example_hh_df ''c3019ait'' ! 0 = Some 2 \<and>
   (\<exists>out missing_cols_count.
      process_households example_hh_df = Inr (out, missing_cols_count) \<and>
      get_col out ''c3019a_val'' ! 0 = Some 20000)"
proof -
  obtain out cnt where p: "process_households example_hh_df = Inr (out, cnt)"
    using process_result [OF wf_example_hh_df] by blast
  have m: "''c3019a'' \<in> set all_debt_exact_vars \<union> set all_asset_exact_vars"
    by (simp add: catalog_eqs)
  have h: "has_col example_hh_df ''c3019a''" and n: "0 < nrows example_hh_df"
    and g: "get_col example_hh_df ''c3019a'' ! 0 = Some 20000"
    and i: "get_col example_hh_df ''c3019ait'' ! 0 = Some 2"
    by (simp_all add: example_hh_df_def has_col_def get_col_def)
  show ?thesis
    using exact_value_wins [OF wf_example_hh_df p m h n g] wf_example_hh_df p m h n g i
    by auto
qed

text \<open>
  What the pipeline does with an exact field that the household table lacks. Lines 288
  to 297 create the column, missing in every row, before the coalescing loops run, so
  the test \<^verbatim>\<open>exact not in hh_df\<close> of lines 307 and 326 never holds: the field is
  among the counted columns, and the coalesced value of every household is the
  midpoint estimate of its code in the interval field the loop pairs with the exact
  field, missing only where that estimate is missing or the loop pairs no field.
\<close>

lemma absent_exact_cell:
  assumes "wf hh_df" and "process_households hh_df = Inr (out, missing_cols_count)"
    and "j < nrows hh_df"
    and "(exact, interval) \<in> set (pairing all_debt_exact_vars all_debt_interval_vars) \<union>
                             set (pairing all_asset_exact_vars all_asset_interval_vars)"
    and "\<not> has_col hh_df exact"
  shows "get_col out exact ! j = None"
    and "get_col out (exact @ ''_val'') ! j =
         (case interval of Some iv \<Rightarrow> midpoint_of iv (cell_of hh_df iv j) | None \<Rightarrow> None)"
    and "missing_cols_count = length (filter (\<lambda>c. \<not> has_col hh_df c) all_vars_needed)"
    and "exact \<in> set (filter (\<lambda>c. \<not> has_col hh_df c) all_vars_needed)"
proof -
  have "exact \<in> set all_debt_exact_vars \<union> set all_asset_exact_vars"
    using assms(4) by (auto simp: pairing_def)
  then have m: "exact \<in> set all_vars_needed" by (auto simp: set_all_vars_needed)
  have e: "cell_of hh_df exact j = None" using assms(5) by (simp add: cell_of_def)
  show "get_col out exact ! j = None"
    using process_cells(3) [OF assms(1,2,3) m] e by simp
  have "get_col out (exact @ ''_val'') ! j = coalesced_cell hh_df exact interval j"
    using assms(4) process_cells(1,2) [OF assms(1,2,3)] by blast
  then show "get_col out (exact @ ''_val'') ! j =
         (case interval of Some iv \<Rightarrow> midpoint_of iv (cell_of hh_df iv j) | None \<Rightarrow> None)"
    using e by (simp add: coalesced_cell_def)
  show "missing_cols_count = length (filter (\<lambda>c. \<not> has_col hh_df c) all_vars_needed)"
    using process_result [OF assms(1)] assms(2) by auto
  show "exact \<in> set (filter (\<lambda>c. \<not> has_col hh_df c) all_vars_needed)"
    using m assms(5) by simp
qed

lemma process_Inr_projr:
  assumes "wf hh_df"
  shows "process_households hh_df = Inr (projr (process_households hh_df))"
  using process_result [OF assms] by auto

lemma wf_example_absent_hh: "wf example_absent_hh"
  by (auto simp: wf_def example_absent_hh_def split: if_splits)

lemma wf_example_mispaired_hh: "wf example_mispaired_hh"
  by (auto simp: wf_def example_mispaired_hh_def split: if_splits)

lemma example_absent_val:
  assumes "process_households example_absent_hh = Inr (out, missing_cols_count)"
  shows "get_col out ''c3019a_val'' ! 0 = Some 5000"
proof -
  have n: "0 < nrows example_absent_hh" by (simp add: example_absent_hh_def)
  have m: "(''c3019a'', Some ''c3019ait'') \<in>
      set (pairing all_asset_exact_vars all_asset_interval_vars)"
    by (simp add: asset_pairing)
  show ?thesis
    using process_cells(2) [OF wf_example_absent_hh assms n m]
    by (simp add: example_eval example_absent_hh_def)
qed

lemma example_absent_count:
  "length (filter (\<lambda>c. \<not> has_col example_absent_hh c) all_vars_needed) = 115"
  by (simp add: all_vars_needed_def catalog_eqs vehicle_in_business_col_def
      vehicle_in_business_col_it_def has_col_def example_absent_hh_def)

text \<open>
  Claim C7 against the code. The table \<open>example_absent_hh\<close> lacks the exact field
  \<^verbatim>\<open>c3019a\<close> of the shop value and has the code \<open>1\<close> in its interval field
  \<^verbatim>\<open>c3019ait\<close>. The pipeline does not fail, creates the exact field as a missing
  column and counts it among the \<open>115\<close> columns it creates; but the coalesced value of
  the household is the midpoint \<open>5000\<close>, where the claim, and the branch of lines 307
  to 309 that the creation of the columns leaves unreachable, have it missing.
\<close>

theorem absent_exact_field_falls_back:
  "''c3019a'' \<in> set all_asset_exact_vars \<and> \<not> has_col example_absent_hh ''c3019a'' \<and>
   (''c3019a'', Some ''c3019ait'') \<in> set (pairing all_asset_exact_vars all_asset_interval_vars) \<and>
   process_households example_absent_hh = Inr (projr (process_households example_absent_hh)) \<and>
   snd (projr (process_households example_absent_hh)) = 115 \<and>
   get_col (fst (projr (process_households example_absent_hh))) ''c3019a'' ! 0 = None \<and>
   get_col (fst (projr (process_households example_absent_hh))) ''c3019a_val'' ! 0 = Some 5000"
proof -
  let ?out = "fst (projr (process_households example_absent_hh))"
  let ?cnt = "snd (projr (process_households example_absent_hh))"
  have p: "process_households example_absent_hh = Inr (?out, ?cnt)"
    using process_Inr_projr [OF wf_example_absent_hh] by simp
  have n: "0 < nrows example_absent_hh" by (simp add: example_absent_hh_def)
  have e: "''c3019a'' \<in> set all_asset_exact_vars" by (simp add: catalog_eqs)
  have a: "\<not> has_col example_absent_hh ''c3019a''"
    by (simp add: has_col_def example_absent_hh_def)
  have m: "(''c3019a'', Some ''c3019ait'') \<in>
      set (pairing all_asset_exact_vars all_asset_interval_vars)"
    by (simp add: asset_pairing)
  then have m': "(''c3019a'', Some ''c3019ait'') \<in>
      set (pairing all_debt_exact_vars all_debt_interval_vars) \<union>
      set (pairing all_asset_exact_vars all_asset_interval_vars)"
    by simp
  note c = absent_exact_cell [OF wf_example_absent_hh p n m' a]
  have "?cnt = 115" using c(3) example_absent_count by simp
  moreover have "get_col ?out ''c3019a'' ! 0 = None" by (rule c(1))
  moreover have "get_col ?out ''c3019a_val'' ! 0 = Some 5000"
    using example_absent_val [OF p] .
  ultimately show ?thesis
    using e a m process_Inr_projr [OF wf_example_absent_hh] by blast
qed

text \<open>
  Claim C1 against the code. The loops pair the exact field of index \<open>i\<close> with the
  interval field of index \<open>i\<close>, and the lists of interval fields skip the concepts
  that have none, so the lists are not aligned. In the table
  \<open>example_mispaired_hh\<close> the commercial-vehicle field \<^verbatim>\<open>c7059\<close>, which has no
  interval field, takes the midpoint of the checking-deposit code \<^verbatim>\<open>d1105it\<close>,
  and \<^verbatim>\<open>d1105\<close> itself stays missing; the business bank loan \<^verbatim>\<open>b3005b_2\<close>,
  which has no interval field, takes the midpoint of \<^verbatim>\<open>b3031ait_2\<close>, and
  \<^verbatim>\<open>b3031a_2\<close> itself stays missing.
\<close>

theorem coalescer_pairs_by_index:
  "(''c7059'', Some ''d1105it'') \<in> set (pairing all_asset_exact_vars all_asset_interval_vars) \<and>
   (''d1105'', Some ''d3116it'') \<in> set (pairing all_asset_exact_vars all_asset_interval_vars) \<and>
   (''b3005b_2'', Some ''b3031ait_2'') \<in>
      set (pairing all_debt_exact_vars all_debt_interval_vars) \<and>
   (''b3031a_2'', Some ''c2064it_1'') \<in>
      set (pairing all_debt_exact_vars all_debt_interval_vars) \<and>
   process_households example_mispaired_hh =
     Inr (projr (process_households example_mispaired_hh)) \<and>
   get_col (fst (projr (process_households example_mispaired_hh))) ''c7059_val'' ! 0 = Some 5000 \<and>
   get_col (fst (projr (process_households example_mispaired_hh))) ''d1105_val'' ! 0 = None \<and>
   get_col (fst (projr (process_households example_mispaired_hh))) ''b3005b_2_val'' ! 0
     = Some 5000 \<and>
   get_col (fst (projr (process_households example_mispaired_hh))) ''b3031a_2_val'' ! 0 = None"
proof -
  let ?out = "fst (projr (process_households example_mispaired_hh))"
  have p: "process_households example_mispaired_hh =
      Inr (?out, snd (projr (process_households example_mispaired_hh)))"
    using process_Inr_projr [OF wf_example_mispaired_hh] by simp
  have n: "0 < nrows example_mispaired_hh" by (simp add: example_mispaired_hh_def)
  have m: "(''c7059'', Some ''d1105it'') \<in>
        set (pairing all_asset_exact_vars all_asset_interval_vars)"
    "(''d1105'', Some ''d3116it'') \<in> set (pairing all_asset_exact_vars all_asset_interval_vars)"
    "(''b3005b_2'', Some ''b3031ait_2'') \<in>
        set (pairing all_debt_exact_vars all_debt_interval_vars)"
    "(''b3031a_2'', Some ''c2064it_1'') \<in>
        set (pairing all_debt_exact_vars all_debt_interval_vars)"
    by (simp_all add: asset_pairing debt_pairing)
  have "get_col ?out ''c7059_val'' ! 0 = Some 5000"
    using process_cells(2) [OF wf_example_mispaired_hh p n m(1)]
    by (simp add: example_eval example_mispaired_hh_def)
  moreover have "get_col ?out ''d1105_val'' ! 0 = None"
    using process_cells(2) [OF wf_example_mispaired_hh p n m(2)]
    by (simp add: example_eval example_mispaired_hh_def)
  moreover have "get_col ?out ''b3005b_2_val'' ! 0 = Some 5000"
    using process_cells(1) [OF wf_example_mispaired_hh p n m(3)]
    by (simp add: example_eval example_mispaired_hh_def)
  moreover have "get_col ?out ''b3031a_2_val'' ! 0 = None"
    using process_cells(1) [OF wf_example_mispaired_hh p n m(4)]
    by (simp add: example_eval example_mispaired_hh_def)
  ultimately show ?thesis
    using m process_Inr_projr [OF wf_example_mispaired_hh] by blast
qed

end
